theory Spec2Isabelle
  imports Main "HOL-Library.AList" "HOL-Library.Word"
begin

section \<open>Python values seen by \<open>pykokkos/interface/type_inference.py\<close>\<close>

text \<open>
  The two functions of the module, \<open>handle_args\<close> and \<open>get_annotations\<close>, only look
  at the runtime class of the values they receive, at the signature of the workunit, at
  the \<open>begin\<close> sequence of an \<open>MDRangePolicy\<close> and at the \<open>shape\<close> and \<open>dtype.name\<close>
  of a \<open>View\<close>.  The universe of values below keeps exactly that much.
\<close>

datatype error = TypeError | ValueError | AssertionError | IndexError

text \<open>The execution space returned by \<open>km.get_default_space()\<close> is global state of the
  library; the model passes it as an argument.\<close>

datatype ExecutionSpace = ExecutionSpace string

text \<open>One entry of \<open>inspect.signature(f).parameters.values()\<close>: \<open>param.name\<close> and
  \<open>param.annotation\<close>, where \<open>None\<close> stands for \<open>inspect._empty\<close>.\<close>

record Parameter =
  param_name :: string
  annotation :: "string option"

text \<open>
  Modelled from the spec: the classes of \<open>execution_policy.py\<close> and \<open>views.py\<close>
  (\<open>RangePolicy\<close>, \<open>TeamThreadRange\<close>, \<open>TeamPolicy\<close>, \<open>MDRangePolicy\<close> with its begin-bound
  sequence, \<open>View\<close> with shape and element dtype, and the base class \<open>ViewType\<close>) are
  imported by the module but defined elsewhere.  \<open>PyViewType c\<close> is an instance of a
  subclass \<open>c\<close> of \<open>ViewType\<close> that is not a \<open>View\<close>; \<open>PyObject c\<close> is an instance of any
  other class \<open>c\<close>.  A float is carried as its IEEE-754 bit pattern and never inspected.
\<close>

datatype pyval =
    PyNone
  | PyStr string
  | PyBool bool
  | PyInt int
  | PyFloat "64 word"
  | PyFunction string "Parameter list"
  | PyView "nat list" string
  | PyViewType string
  | PyRangePolicy ExecutionSpace pyval pyval
  | PyTeamThreadRange
  | PyTeamPolicy
  | PyMDRangePolicy "int list"
  | PyObject string

text \<open>\<open>isinstance(v, str)\<close>\<close>

fun isinstance_str :: "pyval \<Rightarrow> bool" where
  "isinstance_str (PyStr s) = True"
| "isinstance_str v = False"

text \<open>\<open>isinstance(v, int)\<close>; \<open>bool\<close> is a subclass of \<open>int\<close> in Python.\<close>

fun isinstance_int :: "pyval \<Rightarrow> bool" where
  "isinstance_int (PyInt n) = True"
| "isinstance_int (PyBool b) = True"
| "isinstance_int v = False"

text \<open>\<open>isinstance(v, (int, float))\<close>\<close>

fun isinstance_int_float :: "pyval \<Rightarrow> bool" where
  "isinstance_int_float (PyFloat x) = True"
| "isinstance_int_float v = isinstance_int v"

text \<open>\<open>isinstance(v, ViewType)\<close>\<close>

fun isinstance_ViewType :: "pyval \<Rightarrow> bool" where
  "isinstance_ViewType (PyView sh dt) = True"
| "isinstance_ViewType (PyViewType c) = True"
| "isinstance_ViewType v = False"

text \<open>\<open>isinstance(v, View)\<close>\<close>

fun isinstance_View :: "pyval \<Rightarrow> bool" where
  "isinstance_View (PyView sh dt) = True"
| "isinstance_View v = False"

text \<open>\<open>type(v).__name__\<close>\<close>

fun type_name :: "pyval \<Rightarrow> string" where
  "type_name PyNone = ''NoneType''"
| "type_name (PyStr s) = ''str''"
| "type_name (PyBool b) = ''bool''"
| "type_name (PyInt n) = ''int''"
| "type_name (PyFloat x) = ''float''"
| "type_name (PyFunction f ps) = ''function''"
| "type_name (PyView sh dt) = ''View''"
| "type_name (PyViewType c) = c"
| "type_name (PyRangePolicy sp b e) = ''RangePolicy''"
| "type_name PyTeamThreadRange = ''TeamThreadRange''"
| "type_name PyTeamPolicy = ''TeamPolicy''"
| "type_name (PyMDRangePolicy b) = ''MDRangePolicy''"
| "type_name (PyObject c) = c"

text \<open>\<open>str(n)\<close> for a non-negative integer: its decimal digits.\<close>

definition digit_char :: "nat \<Rightarrow> char" where
  "digit_char d = ''0123456789'' ! d"

function str_nat :: "nat \<Rightarrow> string" where
  "str_nat n = (if n < 10 then [digit_char n] else str_nat (n div 10) @ [digit_char (n mod 10)])"
  by pat_completeness auto
termination
  by (relation "measure (\<lambda>n. n)") auto

declare str_nat.simps [simp del]

text \<open>\<open>int(s)\<close> for a string of decimal digits, the inverse of \<open>str\<close>; it is used only to
  state what \<open>str_nat\<close> computes.\<close>

definition digit_value :: "char \<Rightarrow> nat" where
  "digit_value c = of_char c - 48"

definition decimal_value :: "string \<Rightarrow> nat" where
  "decimal_value s = foldl (\<lambda>a c. 10 * a + digit_value c) 0 s"

text \<open>\<open>xs[i]\<close> on a Python list: a negative index counts from the end, and an index
  outside the list raises \<open>IndexError\<close>.\<close>

definition py_index :: "'a list \<Rightarrow> int \<Rightarrow> error + 'a" where
  "py_index xs i =
     (if 0 \<le> i \<and> i < int (length xs) then Inr (xs ! nat i)
      else if i < 0 \<and> - int (length xs) \<le> i then Inr (xs ! nat (int (length xs) + i))
      else Inl IndexError)"

text \<open>\<open>for i in range(...): body\<close> over a state, where the body may raise: the loop
  runs the body at each index in turn and stops at the first exception.\<close>

fun for_range :: "(nat \<Rightarrow> 's \<Rightarrow> error + 's) \<Rightarrow> nat list \<Rightarrow> 's \<Rightarrow> error + 's" where
  "for_range body [] s = Inr s"
| "for_range body (i # idxs) s =
     (case body i s of Inl e \<Rightarrow> Inl e | Inr s' \<Rightarrow> for_range body idxs s')"

section \<open>The records of the module\<close>

record HandledArgs =
  name :: "string option"
  policy :: pyval
  workunit :: pyval
  view :: "pyval option"
  initial_value :: pyval

text \<open>\<open>UpdatedTypes\<close>.  Its field \<open>workunit\<close> is written \<open>ut_workunit\<close> here, since
  \<open>HandledArgs\<close> has a field of that name.  \<open>inferred_types\<close> is a Python dict: an
  association list in insertion order, where assigning to a present key keeps its place
  (\<open>AList.update\<close>).\<close>

record UpdatedTypes =
  ut_workunit :: pyval
  inferred_types :: "(string \<times> string) list"
  is_arg :: "string set"

section \<open>\<open>handle_args\<close>\<close>

text \<open>Lines 51 to 87: the classification by arity and by the classes of the elements.
  The result is the tuple of the five local variables.\<close>

fun unpack_args ::
  "bool \<Rightarrow> pyval list \<Rightarrow> error + (string option \<times> pyval \<times> pyval \<times> pyval option \<times> pyval)" where
  "unpack_args is_for [u0, u1] = Inr (None, u0, u1, None, PyInt 0)"
| "unpack_args is_for [u0, u1, u2] =
     (case u0 of
        PyStr s \<Rightarrow> Inr (Some s, u1, u2, None, PyInt 0)
      | _ \<Rightarrow>
          if is_for \<and> isinstance_ViewType u2 then Inr (None, u0, u1, Some u2, PyInt 0)
          else if isinstance_int_float u2 then Inr (None, u0, u1, None, u2)
          else Inl TypeError)"
| "unpack_args is_for [u0, u1, u2, u3] =
     (case u0 of
        PyStr s \<Rightarrow>
          if is_for \<and> isinstance_ViewType u3 then Inr (Some s, u1, u2, Some u3, PyInt 0)
          else if isinstance_int_float u3 then Inr (Some s, u1, u2, None, u3)
          else Inl TypeError
      | _ \<Rightarrow> Inl TypeError)"
| "unpack_args is_for unpacked = Inl ValueError"

text \<open>Lines 89 and 90: an \<open>int\<close> policy becomes \<open>RangePolicy(km.get_default_space(), 0, policy)\<close>.\<close>

definition resolve_policy :: "ExecutionSpace \<Rightarrow> pyval \<Rightarrow> pyval" where
  "resolve_policy default_space p =
     (if isinstance_int p then PyRangePolicy default_space (PyInt 0) p else p)"

definition handle_args :: "ExecutionSpace \<Rightarrow> bool \<Rightarrow> pyval list \<Rightarrow> error + HandledArgs" where
  "handle_args default_space is_for unpacked =
     (case unpack_args is_for unpacked of
        Inl e \<Rightarrow> Inl e
      | Inr (nm, pol, wu, vw, iv) \<Rightarrow>
          Inr \<lparr>name = nm, policy = resolve_policy default_space pol, workunit = wu,
               view = vw, initial_value = iv\<rparr>)"

section \<open>\<open>get_annotations\<close>\<close>

text \<open>The two statements \<open>inferred_types[k] = t\<close> and \<open>is_arg.add(k)\<close>, which the
  function always executes together.\<close>

definition set_type :: "string \<Rightarrow> string \<Rightarrow> UpdatedTypes \<Rightarrow> UpdatedTypes" where
  "set_type k t ut =
     ut\<lparr>inferred_types := AList.update k t (inferred_types ut), is_arg := insert k (is_arg ut)\<rparr>"

text \<open>Lines 113 to 118.\<close>

definition policy_params :: "string \<Rightarrow> pyval \<Rightarrow> nat" where
  "policy_params parallel_type pol =
     (case pol of PyMDRangePolicy b \<Rightarrow> length b | _ \<Rightarrow> 1)
     + (if parallel_type = ''parallel_reduce'' then 1 else 0)"

text \<open>Lines 128 to 145: the chain of \<open>isinstance\<close> tests on the policy.\<close>

definition infer_from_policy :: "pyval \<Rightarrow> nat \<Rightarrow> string \<Rightarrow> UpdatedTypes \<Rightarrow> error + UpdatedTypes" where
  "infer_from_policy pol i pname ut =
     (case pol of
        PyRangePolicy sp b e \<Rightarrow> Inr (if i = 0 then set_type pname ''int'' ut else ut)
      | PyTeamThreadRange \<Rightarrow> Inr (if i = 0 then set_type pname ''int'' ut else ut)
      | PyTeamPolicy \<Rightarrow> Inr (if i = 0 then set_type pname ''pk.TeamMember'' ut else ut)
      | PyMDRangePolicy b \<Rightarrow>
          (let total_dims = length b
           in Inr (if i < total_dims then set_type pname ''int'' ut else ut))
      | _ \<Rightarrow> Inl ValueError)"

text \<open>Lines 121 to 150: the body of the first loop, \<open>for i in range(policy_params)\<close>,
  at index \<open>i\<close>.\<close>

definition policy_step ::
  "string \<Rightarrow> pyval \<Rightarrow> Parameter list \<Rightarrow> nat \<Rightarrow> nat \<Rightarrow> UpdatedTypes \<Rightarrow> error + UpdatedTypes" where
  "policy_step parallel_type pol param_list pp i ut =
     (case py_index param_list (int i) of
        Inl e \<Rightarrow> Inl e
      | Inr param \<Rightarrow>
          if annotation param = None then
            (case infer_from_policy pol i (param_name param) ut of
               Inl e \<Rightarrow> Inl e
             | Inr ut' \<Rightarrow>
                 Inr (if int i = int pp - 1 \<and> parallel_type = ''parallel_reduce''
                      then set_type (param_name param) ''Acc:float'' ut' else ut'))
          else Inr ut)"

text \<open>Lines 158 to 162: the values of the keyword arguments that name a parameter past
  the policy slots are appended to the raw arguments, in parameter order.\<close>

definition queue_kwargs ::
  "Parameter list \<Rightarrow> nat \<Rightarrow> pyval list \<Rightarrow> (string \<times> pyval) list \<Rightarrow> pyval list" where
  "queue_kwargs param_list pp args_list passed_kwargs =
     (if passed_kwargs \<noteq> [] then
        args_list @ concat (map (\<lambda>param. case map_of passed_kwargs (param_name param) of
                                            Some v \<Rightarrow> [v] | None \<Rightarrow> [])
                                (drop pp param_list))
      else args_list)"

text \<open>Line 166.\<close>

definition value_idx :: "HandledArgs \<Rightarrow> int" where
  "value_idx handled_args = (if name handled_args \<noteq> None then 3 else 2)"

text \<open>Lines 182 to 185.\<close>

definition param_type :: "pyval \<Rightarrow> string" where
  "param_type v =
     (case v of
        PyView sh dt \<Rightarrow> ''View'' @ str_nat (length sh) @ ''D:'' @ dt
      | _ \<Rightarrow> type_name v)"

text \<open>Lines 176 to 188: the body of the second loop,
  \<open>for i in range(policy_params, len(param_list))\<close>, at index \<open>i\<close>.\<close>

definition value_step ::
  "Parameter list \<Rightarrow> pyval list \<Rightarrow> int \<Rightarrow> nat \<Rightarrow> nat \<Rightarrow> UpdatedTypes \<Rightarrow> error + UpdatedTypes" where
  "value_step param_list args_list vidx pp i ut =
     (case py_index param_list (int i) of
        Inl e \<Rightarrow> Inl e
      | Inr param \<Rightarrow>
          if annotation param = None then
            (case py_index args_list (vidx + int i - int pp) of
               Inl e \<Rightarrow> Inl e
             | Inr v \<Rightarrow> Inr (set_type (param_name param) (param_type v) ut))
          else Inr ut)"

text \<open>\<open>if not len(updated_types.inferred_types): return None\<close>, then
  \<open>return updated_types\<close>.\<close>

definition finish :: "UpdatedTypes \<Rightarrow> error + UpdatedTypes option" where
  "finish ut = (if inferred_types ut = [] then Inr None else Inr (Some ut))"

text \<open>The function itself.  \<open>inspect.signature\<close> raises \<open>TypeError\<close> on a workunit that
  is not callable; the \<open>assert\<close> of line 168 is modelled as enabled.\<close>

definition get_annotations ::
  "string \<Rightarrow> HandledArgs \<Rightarrow> pyval list \<Rightarrow> (string \<times> pyval) list \<Rightarrow> error + UpdatedTypes option" where
  "get_annotations parallel_type handled_args args passed_kwargs =
     (case workunit handled_args of
        PyFunction f param_list \<Rightarrow>
          (let updated_types = \<lparr>ut_workunit = workunit handled_args, inferred_types = [], is_arg = {}\<rparr>;
               pp = policy_params parallel_type (policy handled_args)
           in case for_range (policy_step parallel_type (policy handled_args) param_list pp) [0..<pp]
                     updated_types of
                Inl e \<Rightarrow> Inl e
              | Inr ut1 \<Rightarrow>
                  if length param_list = pp then finish ut1
                  else
                    (let args_list = queue_kwargs param_list pp args passed_kwargs;
                         vidx = value_idx handled_args
                     in if int (length param_list) - int pp \<noteq> int (length args_list) - vidx
                        then Inl AssertionError
                        else
                          (case for_range (value_step param_list args_list vidx pp)
                                  [pp..<length param_list] ut1 of
                             Inl e \<Rightarrow> Inl e
                           | Inr ut2 \<Rightarrow> finish ut2)))
      | _ \<Rightarrow> Inl TypeError)"

text \<open>The policies for which the chain of lines 128 to 143 has a branch.\<close>

fun supported_policy :: "pyval \<Rightarrow> bool" where
  "supported_policy (PyRangePolicy sp b e) = True"
| "supported_policy PyTeamThreadRange = True"
| "supported_policy PyTeamPolicy = True"
| "supported_policy (PyMDRangePolicy b) = True"
| "supported_policy v = False"

text \<open>Python rejects a function definition with two parameters of the same name, so
  the names of a signature are pairwise different.\<close>

definition wf_signature :: "Parameter list \<Rightarrow> bool" where
  "wf_signature param_list = distinct (map param_name param_list)"

section \<open>Auxiliary facts\<close>

lemma set_type_simps [simp]:
  "inferred_types (set_type k t ut) = AList.update k t (inferred_types ut)"
  "is_arg (set_type k t ut) = insert k (is_arg ut)"
  "ut_workunit (set_type k t ut) = ut_workunit ut"
  by (simp_all add: set_type_def)

lemma set_type_twice: "set_type k t' (set_type k t ut) = set_type k t' ut"
  by (simp add: set_type_def)

lemma set_type_keys:
  "fst ` set (inferred_types a) = is_arg a \<Longrightarrow>
   fst ` set (inferred_types (set_type k t a)) = is_arg (set_type k t a)"
  by (simp add: dom_update)

lemma py_index_nat:
  "py_index xs (int i) = (if i < length xs then Inr (xs ! i) else Inl IndexError)"
  by (simp add: py_index_def)

lemma for_range_invariant:
  assumes "for_range body idxs s = Inr s'" and "P s"
    and "\<And>i a b. i \<in> set idxs \<Longrightarrow> P a \<Longrightarrow> body i a = Inr b \<Longrightarrow> P b"
  shows "P s'"
  using assms
proof (induction idxs arbitrary: s)
  case Nil
  then show ?case by simp
next
  case (Cons i idxs)
  from Cons.prems(1) obtain m where m: "body i s = Inr m" and rest: "for_range body idxs m = Inr s'"
    by (auto split: sum.splits)
  have "P m" by (meson Cons.prems(2,3) m list.set_intros(1))
  moreover have "\<And>k a b. k \<in> set idxs \<Longrightarrow> P a \<Longrightarrow> body k a = Inr b \<Longrightarrow> P b"
    by (meson Cons.prems(3) list.set_intros(2))
  ultimately show ?case using Cons.IH [OF rest] by blast
qed

lemma for_range_steps:
  assumes "for_range body idxs s = Inr s'" and "i \<in> set idxs"
  shows "\<exists>a b. body i a = Inr b"
  using assms
proof (induction idxs arbitrary: s)
  case Nil
  then show ?case by simp
next
  case (Cons j idxs)
  from Cons.prems(1) obtain m where m: "body j s = Inr m" and rest: "for_range body idxs m = Inr s'"
    by (auto split: sum.splits)
  show ?case
  proof (cases "i = j")
    case True
    with m show ?thesis by blast
  next
    case False
    with Cons.prems(2) have "i \<in> set idxs" by simp
    with Cons.IH rest show ?thesis by blast
  qed
qed

lemma for_range_establish:
  assumes "for_range body idxs s = Inr s'" and "distinct idxs" and "i \<in> set idxs"
    and "\<And>a b. body i a = Inr b \<Longrightarrow> Q b"
    and "\<And>j a b. j \<in> set idxs \<Longrightarrow> j \<noteq> i \<Longrightarrow> Q a \<Longrightarrow> body j a = Inr b \<Longrightarrow> Q b"
  shows "Q s'"
  using assms
proof (induction idxs arbitrary: s)
  case Nil
  then show ?case by simp
next
  case (Cons j idxs)
  from Cons.prems(1) obtain m where m: "body j s = Inr m" and rest: "for_range body idxs m = Inr s'"
    by (auto split: sum.splits)
  show ?case
  proof (cases "i = j")
    case True
    with m Cons.prems(4) have "Q m" by simp
    moreover from True Cons.prems(2) have ne: "\<And>k. k \<in> set idxs \<Longrightarrow> k \<noteq> i" by auto
    moreover have "Q b" if "k \<in> set idxs" "Q a" "body k a = Inr b" for k a b
      using that Cons.prems(5) [of k a b] ne [of k] by simp
    ultimately show ?thesis
      using for_range_invariant [OF rest, of Q] by blast
  next
    case False
    with Cons.prems(3) have "i \<in> set idxs" by simp
    moreover from Cons.prems(2) have "distinct idxs" by simp
    moreover have "\<And>k a b. k \<in> set idxs \<Longrightarrow> k \<noteq> i \<Longrightarrow> Q a \<Longrightarrow> body k a = Inr b \<Longrightarrow> Q b"
      by (meson Cons.prems(5) list.set_intros(2))
    ultimately show ?thesis
      using Cons.IH [OF rest] Cons.prems(4) by blast
  qed
qed

lemma for_range_total:
  assumes "\<And>i a. i \<in> set idxs \<Longrightarrow> \<exists>b. body i a = Inr b"
  shows "\<exists>s'. for_range body idxs s = Inr s'"
  using assms
proof (induction idxs arbitrary: s)
  case Nil
  then show ?case by simp
next
  case (Cons j idxs)
  then obtain m where m: "body j s = Inr m" by (meson list.set_intros(1))
  with Cons show ?case by simp
qed

lemma policy_step_Inr:
  assumes "policy_step pt pol ps pp i ut = Inr ut'"
  shows "i < length ps"
    and "annotation (ps ! i) \<noteq> None \<Longrightarrow> ut' = ut"
    and "annotation (ps ! i) = None \<Longrightarrow>
           supported_policy pol \<and> (ut' = ut \<or> (\<exists>t. ut' = set_type (param_name (ps ! i)) t ut))"
  using assms
  by (auto simp: policy_step_def py_index_nat infer_from_policy_def set_type_twice Let_def
           split: if_splits sum.splits pyval.splits)

lemma value_step_Inr:
  assumes "value_step ps args vidx pp i ut = Inr ut'"
  shows "i < length ps"
    and "annotation (ps ! i) \<noteq> None \<Longrightarrow> ut' = ut"
    and "annotation (ps ! i) = None \<Longrightarrow>
           \<exists>v. py_index args (vidx + int i - int pp) = Inr v \<and>
               ut' = set_type (param_name (ps ! i)) (param_type v) ut"
  using assms
  by (auto simp: value_step_def py_index_nat split: if_splits sum.splits)


lemma policy_step_slot:
  assumes "policy_step pt pol ps (policy_params pt pol) i a = Inr b"
    and "i < policy_params pt pol" and "annotation (ps ! i) = None"
  shows "\<exists>t. b = set_type (param_name (ps ! i)) t a"
  using assms
  by (auto simp: policy_step_def py_index_nat infer_from_policy_def set_type_twice Let_def
                 policy_params_def
           split: if_splits sum.splits pyval.splits)

lemma policy_step_mono:
  assumes "policy_step pt pol ps pp i a = Inr b"
  shows "is_arg a \<subseteq> is_arg b" and "ut_workunit b = ut_workunit a"
    and "k \<noteq> param_name (ps ! i) \<Longrightarrow> map_of (inferred_types b) k = map_of (inferred_types a) k"
    and "fst ` set (inferred_types a) = is_arg a \<Longrightarrow> fst ` set (inferred_types b) = is_arg b"
    and "is_arg a \<subseteq> param_name ` {p \<in> set ps. annotation p = None}
         \<Longrightarrow> is_arg b \<subseteq> param_name ` {p \<in> set ps. annotation p = None}"
proof -
  note sh = policy_step_Inr [OF assms]
  show "is_arg a \<subseteq> is_arg b" using sh by (cases "annotation (ps ! i)") auto
  show "ut_workunit b = ut_workunit a" using sh by (cases "annotation (ps ! i)") auto
  show "map_of (inferred_types b) k = map_of (inferred_types a) k" if "k \<noteq> param_name (ps ! i)"
    using sh that by (cases "annotation (ps ! i)") (auto simp: update_conv')
  show "fst ` set (inferred_types b) = is_arg b" if "fst ` set (inferred_types a) = is_arg a"
    by (cases "annotation (ps ! i)") (metis sh(2,3) that set_type_keys option.distinct(1))+
  show "is_arg b \<subseteq> param_name ` {p \<in> set ps. annotation p = None}"
    if "is_arg a \<subseteq> param_name ` {p \<in> set ps. annotation p = None}"
  proof (cases "annotation (ps ! i)")
    case None
    have "ps ! i \<in> set ps" using sh(1) by simp
    with None have "param_name (ps ! i) \<in> param_name ` {p \<in> set ps. annotation p = None}" by blast
    with sh(3) [OF None] that show ?thesis by auto
  next
    case (Some t)
    with sh(2) that show ?thesis by simp
  qed
qed

lemma value_step_mono:
  assumes "value_step ps args vidx pp i a = Inr b"
  shows "is_arg a \<subseteq> is_arg b" and "ut_workunit b = ut_workunit a"
    and "k \<noteq> param_name (ps ! i) \<Longrightarrow> map_of (inferred_types b) k = map_of (inferred_types a) k"
    and "fst ` set (inferred_types a) = is_arg a \<Longrightarrow> fst ` set (inferred_types b) = is_arg b"
    and "is_arg a \<subseteq> param_name ` {p \<in> set ps. annotation p = None}
         \<Longrightarrow> is_arg b \<subseteq> param_name ` {p \<in> set ps. annotation p = None}"
proof -
  note sh = value_step_Inr [OF assms]
  show "is_arg a \<subseteq> is_arg b" using sh by (cases "annotation (ps ! i)") auto
  show "ut_workunit b = ut_workunit a" using sh by (cases "annotation (ps ! i)") auto
  show "map_of (inferred_types b) k = map_of (inferred_types a) k" if "k \<noteq> param_name (ps ! i)"
    using sh that by (cases "annotation (ps ! i)") (auto simp: update_conv')
  show "fst ` set (inferred_types b) = is_arg b" if "fst ` set (inferred_types a) = is_arg a"
    by (cases "annotation (ps ! i)") (metis sh(2,3) that set_type_keys option.distinct(1))+
  show "is_arg b \<subseteq> param_name ` {p \<in> set ps. annotation p = None}"
    if "is_arg a \<subseteq> param_name ` {p \<in> set ps. annotation p = None}"
  proof (cases "annotation (ps ! i)")
    case None
    have "ps ! i \<in> set ps" using sh(1) by simp
    with None have "param_name (ps ! i) \<in> param_name ` {p \<in> set ps. annotation p = None}" by blast
    with sh(3) [OF None] that show ?thesis by auto
  next
    case (Some t)
    with sh(2) that show ?thesis by simp
  qed
qed

lemma loop_props:
  assumes run: "for_range body idxs a = Inr b"
    and step: "\<And>i u v. body i u = Inr v \<Longrightarrow>
                 i < length ps \<and> is_arg u \<subseteq> is_arg v \<and> ut_workunit v = ut_workunit u
               \<and> (fst ` set (inferred_types u) = is_arg u \<longrightarrow> fst ` set (inferred_types v) = is_arg v)
               \<and> (is_arg u \<subseteq> param_name ` {p \<in> set ps. annotation p = None}
                    \<longrightarrow> is_arg v \<subseteq> param_name ` {p \<in> set ps. annotation p = None})
               \<and> (\<forall>k. k \<noteq> param_name (ps ! i)
                    \<longrightarrow> map_of (inferred_types v) k = map_of (inferred_types u) k)"
  shows "\<forall>i\<in>set idxs. i < length ps"
    and "is_arg a \<subseteq> is_arg b"
    and "ut_workunit b = ut_workunit a"
    and "fst ` set (inferred_types a) = is_arg a \<Longrightarrow> fst ` set (inferred_types b) = is_arg b"
    and "is_arg a \<subseteq> param_name ` {p \<in> set ps. annotation p = None}
         \<Longrightarrow> is_arg b \<subseteq> param_name ` {p \<in> set ps. annotation p = None}"
    and "\<forall>i\<in>set idxs. param_name (ps ! i) \<noteq> k
         \<Longrightarrow> map_of (inferred_types b) k = map_of (inferred_types a) k"
proof -
  show "\<forall>i\<in>set idxs. i < length ps"
  proof
    fix i assume "i \<in> set idxs"
    from for_range_steps [OF run this] obtain u v where "body i u = Inr v" by blast
    from step [OF this] show "i < length ps" by simp
  qed
  show "is_arg a \<subseteq> is_arg b"
  proof (rule for_range_invariant [OF run, of "\<lambda>u. is_arg a \<subseteq> is_arg u"])
    show "is_arg a \<subseteq> is_arg a" by simp
  next
    fix i u v assume "is_arg a \<subseteq> is_arg u" and "body i u = Inr v"
    with step [of i u v] show "is_arg a \<subseteq> is_arg v" by blast
  qed
  show "ut_workunit b = ut_workunit a"
  proof (rule for_range_invariant [OF run, of "\<lambda>u. ut_workunit u = ut_workunit a"])
    show "ut_workunit a = ut_workunit a" by simp
  next
    fix i u v assume "ut_workunit u = ut_workunit a" and "body i u = Inr v"
    with step [of i u v] show "ut_workunit v = ut_workunit a" by simp
  qed
  show "fst ` set (inferred_types b) = is_arg b" if init: "fst ` set (inferred_types a) = is_arg a"
  proof (rule for_range_invariant [OF run, of "\<lambda>u. fst ` set (inferred_types u) = is_arg u"])
    show "fst ` set (inferred_types a) = is_arg a" by (rule init)
  next
    fix i u v assume "fst ` set (inferred_types u) = is_arg u" and "body i u = Inr v"
    with step [of i u v] show "fst ` set (inferred_types v) = is_arg v" by simp
  qed
  show "is_arg b \<subseteq> param_name ` {p \<in> set ps. annotation p = None}"
    if init: "is_arg a \<subseteq> param_name ` {p \<in> set ps. annotation p = None}"
  proof (rule for_range_invariant [OF run,
           of "\<lambda>u. is_arg u \<subseteq> param_name ` {p \<in> set ps. annotation p = None}"])
    show "is_arg a \<subseteq> param_name ` {p \<in> set ps. annotation p = None}" by (rule init)
  next
    fix i u v
    assume "is_arg u \<subseteq> param_name ` {p \<in> set ps. annotation p = None}" and "body i u = Inr v"
    with step [of i u v] show "is_arg v \<subseteq> param_name ` {p \<in> set ps. annotation p = None}"
      by simp
  qed
  show "map_of (inferred_types b) k = map_of (inferred_types a) k"
    if other: "\<forall>i\<in>set idxs. param_name (ps ! i) \<noteq> k"
  proof (rule for_range_invariant [OF run,
           of "\<lambda>u. map_of (inferred_types u) k = map_of (inferred_types a) k"])
    show "map_of (inferred_types a) k = map_of (inferred_types a) k" by simp
  next
    fix i u v
    assume "i \<in> set idxs" and "map_of (inferred_types u) k = map_of (inferred_types a) k"
      and "body i u = Inr v"
    with step [of i u v] other show "map_of (inferred_types v) k = map_of (inferred_types a) k"
      by metis
  qed
qed

lemma policy_step_frame:
  assumes "policy_step pt pol ps pp i u = Inr v"
  shows "i < length ps \<and> is_arg u \<subseteq> is_arg v \<and> ut_workunit v = ut_workunit u
       \<and> (fst ` set (inferred_types u) = is_arg u \<longrightarrow> fst ` set (inferred_types v) = is_arg v)
       \<and> (is_arg u \<subseteq> param_name ` {p \<in> set ps. annotation p = None}
            \<longrightarrow> is_arg v \<subseteq> param_name ` {p \<in> set ps. annotation p = None})
       \<and> (\<forall>k. k \<noteq> param_name (ps ! i)
            \<longrightarrow> map_of (inferred_types v) k = map_of (inferred_types u) k)"
  using policy_step_Inr(1) [OF assms] policy_step_mono [OF assms] by simp

lemma value_step_frame:
  assumes "value_step ps args vidx pp i u = Inr v"
  shows "i < length ps \<and> is_arg u \<subseteq> is_arg v \<and> ut_workunit v = ut_workunit u
       \<and> (fst ` set (inferred_types u) = is_arg u \<longrightarrow> fst ` set (inferred_types v) = is_arg v)
       \<and> (is_arg u \<subseteq> param_name ` {p \<in> set ps. annotation p = None}
            \<longrightarrow> is_arg v \<subseteq> param_name ` {p \<in> set ps. annotation p = None})
       \<and> (\<forall>k. k \<noteq> param_name (ps ! i)
            \<longrightarrow> map_of (inferred_types v) k = map_of (inferred_types u) k)"
  using value_step_Inr(1) [OF assms] value_step_mono [OF assms] by simp

lemma policy_loop_props:
  assumes "for_range (policy_step pt pol ps pp) idxs a = Inr b"
  shows "\<forall>i\<in>set idxs. i < length ps"
    and "is_arg a \<subseteq> is_arg b"
    and "ut_workunit b = ut_workunit a"
    and "fst ` set (inferred_types a) = is_arg a \<Longrightarrow> fst ` set (inferred_types b) = is_arg b"
    and "is_arg a \<subseteq> param_name ` {p \<in> set ps. annotation p = None}
         \<Longrightarrow> is_arg b \<subseteq> param_name ` {p \<in> set ps. annotation p = None}"
    and "\<forall>i\<in>set idxs. param_name (ps ! i) \<noteq> k
         \<Longrightarrow> map_of (inferred_types b) k = map_of (inferred_types a) k"
proof -
  show "\<forall>i\<in>set idxs. i < length ps"
    by (rule loop_props(1) [OF assms]) (erule policy_step_frame)
  show "is_arg a \<subseteq> is_arg b"
    by (rule loop_props(2) [OF assms, of ps]) (erule policy_step_frame)
  show "ut_workunit b = ut_workunit a"
    by (rule loop_props(3) [OF assms, of ps]) (erule policy_step_frame)
  show "fst ` set (inferred_types b) = is_arg b" if "fst ` set (inferred_types a) = is_arg a"
    by (rule loop_props(4) [OF assms _ that, of ps]) (erule policy_step_frame)
  show "is_arg b \<subseteq> param_name ` {p \<in> set ps. annotation p = None}"
    if "is_arg a \<subseteq> param_name ` {p \<in> set ps. annotation p = None}"
    by (rule loop_props(5) [OF assms _ that]) (erule policy_step_frame)
  show "map_of (inferred_types b) k = map_of (inferred_types a) k"
    if "\<forall>i\<in>set idxs. param_name (ps ! i) \<noteq> k"
    by (rule loop_props(6) [OF assms _ that]) (erule policy_step_frame)
qed

lemma value_loop_props:
  assumes "for_range (value_step ps args vidx pp) idxs a = Inr b"
  shows "\<forall>i\<in>set idxs. i < length ps"
    and "is_arg a \<subseteq> is_arg b"
    and "ut_workunit b = ut_workunit a"
    and "fst ` set (inferred_types a) = is_arg a \<Longrightarrow> fst ` set (inferred_types b) = is_arg b"
    and "is_arg a \<subseteq> param_name ` {p \<in> set ps. annotation p = None}
         \<Longrightarrow> is_arg b \<subseteq> param_name ` {p \<in> set ps. annotation p = None}"
    and "\<forall>i\<in>set idxs. param_name (ps ! i) \<noteq> k
         \<Longrightarrow> map_of (inferred_types b) k = map_of (inferred_types a) k"
proof -
  show "\<forall>i\<in>set idxs. i < length ps"
    by (rule loop_props(1) [OF assms]) (erule value_step_frame)
  show "is_arg a \<subseteq> is_arg b"
    by (rule loop_props(2) [OF assms, of ps]) (erule value_step_frame)
  show "ut_workunit b = ut_workunit a"
    by (rule loop_props(3) [OF assms, of ps]) (erule value_step_frame)
  show "fst ` set (inferred_types b) = is_arg b" if "fst ` set (inferred_types a) = is_arg a"
    by (rule loop_props(4) [OF assms _ that, of ps]) (erule value_step_frame)
  show "is_arg b \<subseteq> param_name ` {p \<in> set ps. annotation p = None}"
    if "is_arg a \<subseteq> param_name ` {p \<in> set ps. annotation p = None}"
    by (rule loop_props(5) [OF assms _ that]) (erule value_step_frame)
  show "map_of (inferred_types b) k = map_of (inferred_types a) k"
    if "\<forall>i\<in>set idxs. param_name (ps ! i) \<noteq> k"
    by (rule loop_props(6) [OF assms _ that]) (erule value_step_frame)
qed

lemma policy_loop_assigned:
  assumes "for_range (policy_step pt pol ps (policy_params pt pol)) idxs a = Inr b"
    and "distinct idxs" and "i \<in> set idxs" and "i < policy_params pt pol"
    and "annotation (ps ! i) = None"
  shows "param_name (ps ! i) \<in> is_arg b"
proof (rule for_range_establish [OF assms(1-3), of "\<lambda>u. param_name (ps ! i) \<in> is_arg u"])
  fix u v assume "policy_step pt pol ps (policy_params pt pol) i u = Inr v"
  from policy_step_slot [OF this assms(4,5)] show "param_name (ps ! i) \<in> is_arg v" by auto
next
  fix j u v
  assume "param_name (ps ! i) \<in> is_arg u" "policy_step pt pol ps (policy_params pt pol) j u = Inr v"
  then show "param_name (ps ! i) \<in> is_arg v" using policy_step_mono(1) by blast
qed

lemma value_loop_assigned:
  assumes "for_range (value_step ps args vidx pp) idxs a = Inr b"
    and "distinct idxs" and "i \<in> set idxs" and "annotation (ps ! i) = None"
  shows "param_name (ps ! i) \<in> is_arg b"
proof (rule for_range_establish [OF assms(1-3), of "\<lambda>u. param_name (ps ! i) \<in> is_arg u"])
  fix u v assume "value_step ps args vidx pp i u = Inr v"
  from value_step_Inr(3) [OF this assms(4)] show "param_name (ps ! i) \<in> is_arg v" by auto
next
  fix j u v
  assume "param_name (ps ! i) \<in> is_arg u" "value_step ps args vidx pp j u = Inr v"
  then show "param_name (ps ! i) \<in> is_arg v" using value_step_mono(1) by blast
qed

lemma get_annotations_unfold:
  assumes "workunit h = PyFunction f ps"
  shows "get_annotations pt h args kw =
     (case for_range (policy_step pt (policy h) ps (policy_params pt (policy h)))
             [0..<policy_params pt (policy h)]
             \<lparr>ut_workunit = workunit h, inferred_types = [], is_arg = {}\<rparr> of
        Inl e \<Rightarrow> Inl e
      | Inr ut1 \<Rightarrow>
          if length ps = policy_params pt (policy h) then finish ut1
          else if int (length ps) - int (policy_params pt (policy h))
                  \<noteq> int (length (queue_kwargs ps (policy_params pt (policy h)) args kw)) - value_idx h
          then Inl AssertionError
          else (case for_range (value_step ps (queue_kwargs ps (policy_params pt (policy h)) args kw)
                                  (value_idx h) (policy_params pt (policy h)))
                       [policy_params pt (policy h)..<length ps] ut1 of
                  Inl e \<Rightarrow> Inl e
                | Inr ut2 \<Rightarrow> finish ut2))"
  unfolding get_annotations_def Let_def using assms by simp

lemma get_annotations_Inr:
  assumes "get_annotations pt h args kw = Inr r" and "workunit h = PyFunction f ps"
  shows "\<exists>ut1 ut2.
           for_range (policy_step pt (policy h) ps (policy_params pt (policy h)))
             [0..<policy_params pt (policy h)]
             \<lparr>ut_workunit = workunit h, inferred_types = [], is_arg = {}\<rparr> = Inr ut1
         \<and> (length ps = policy_params pt (policy h) \<and> ut2 = ut1
            \<or> length ps \<noteq> policy_params pt (policy h)
              \<and> int (length ps) - int (policy_params pt (policy h))
                  = int (length (queue_kwargs ps (policy_params pt (policy h)) args kw)) - value_idx h
              \<and> for_range (value_step ps (queue_kwargs ps (policy_params pt (policy h)) args kw)
                             (value_idx h) (policy_params pt (policy h)))
                   [policy_params pt (policy h)..<length ps] ut1 = Inr ut2)
         \<and> r = (if inferred_types ut2 = [] then None else Some ut2)"
proof -
  let ?pp = "policy_params pt (policy h)"
  let ?l1 = "for_range (policy_step pt (policy h) ps ?pp) [0..<?pp]
               \<lparr>ut_workunit = workunit h, inferred_types = [], is_arg = {}\<rparr>"
  let ?args = "queue_kwargs ps ?pp args kw"
  note eq = get_annotations_unfold [OF assms(2), of pt args kw]
  from assms(1) eq obtain ut1 where l1: "?l1 = Inr ut1"
    by (cases ?l1) simp_all
  show ?thesis
  proof (cases "length ps = ?pp")
    case True
    with assms(1) eq l1 have "r = (if inferred_types ut1 = [] then None else Some ut1)"
      by (auto simp: finish_def split: if_splits)
    with l1 True show ?thesis by blast
  next
    case False
    let ?l2 = "for_range (value_step ps ?args (value_idx h) ?pp) [?pp..<length ps] ut1"
    from assms(1) eq l1 False
    have cnt: "int (length ps) - int ?pp = int (length ?args) - value_idx h"
      by (auto split: if_splits)
    from assms(1) eq l1 False cnt obtain ut2 where l2: "?l2 = Inr ut2"
      by (cases ?l2) simp_all
    from assms(1) eq l1 False cnt l2 have "r = (if inferred_types ut2 = [] then None else Some ut2)"
      by (auto simp: finish_def split: if_splits)
    with l1 False cnt l2 show ?thesis by blast
  qed
qed

lemma wf_names:
  assumes "wf_signature ps" and "i < length ps" and "j < length ps" and "i \<noteq> j"
  shows "param_name (ps ! i) \<noteq> param_name (ps ! j)"
proof -
  from assms(1) have "distinct (map param_name ps)" by (simp add: wf_signature_def)
  then have "(map param_name ps ! i = map param_name ps ! j) = (i = j)"
    by (rule nth_eq_iff_index_eq) (use assms(2,3) in simp_all)
  with assms(2-4) show ?thesis by simp
qed

lemma policy_step_type:
  assumes "policy_step pt pol ps (policy_params pt pol) i a = Inr b"
    and "i < policy_params pt pol" and "annotation (ps ! i) = None"
  shows "b = set_type (param_name (ps ! i))
               (if Suc i = policy_params pt pol \<and> pt = ''parallel_reduce'' then ''Acc:float''
                else if pol = PyTeamPolicy then ''pk.TeamMember'' else ''int'') a"
  using assms
  by (cases pol)
     (auto simp: policy_step_def py_index_nat infer_from_policy_def set_type_twice Let_def
                 policy_params_def split: if_splits)

lemma policy_loop_typed:
  assumes run: "for_range (policy_step pt pol ps (policy_params pt pol)) idxs a = Inr b"
    and "distinct idxs" and "i \<in> set idxs" and "i < policy_params pt pol"
    and "annotation (ps ! i) = None" and wf: "wf_signature ps"
  shows "map_of (inferred_types b) (param_name (ps ! i)) =
           Some (if Suc i = policy_params pt pol \<and> pt = ''parallel_reduce'' then ''Acc:float''
                 else if pol = PyTeamPolicy then ''pk.TeamMember'' else ''int'')"
    (is "map_of _ ?n = Some ?t")
proof (rule for_range_establish [OF assms(1-3), of "\<lambda>u. map_of (inferred_types u) ?n = Some ?t"])
  fix u v assume "policy_step pt pol ps (policy_params pt pol) i u = Inr v"
  from policy_step_type [OF this assms(4,5)] show "map_of (inferred_types v) ?n = Some ?t"
    by (simp add: update_conv')
next
  fix j u v
  assume j: "j \<in> set idxs" "j \<noteq> i" and u: "map_of (inferred_types u) ?n = Some ?t"
    and st: "policy_step pt pol ps (policy_params pt pol) j u = Inr v"
  from policy_loop_props(1) [OF run] j(1) assms(3) have "j < length ps" "i < length ps" by auto
  with wf j(2) have "?n \<noteq> param_name (ps ! j)" using wf_names by blast
  from policy_step_mono(3) [OF st this] u show "map_of (inferred_types v) ?n = Some ?t" by simp
qed

lemma value_loop_typed:
  assumes run: "for_range (value_step ps args vidx pp) idxs a = Inr b"
    and "distinct idxs" and "i \<in> set idxs"
    and "annotation (ps ! i) = None" and wf: "wf_signature ps"
  shows "\<exists>v. py_index args (vidx + int i - int pp) = Inr v \<and>
             map_of (inferred_types b) (param_name (ps ! i)) = Some (param_type v)"
    (is "?Q b")
proof (rule for_range_establish [OF assms(1-3), of ?Q])
  fix u v assume "value_step ps args vidx pp i u = Inr v"
  from value_step_Inr(3) [OF this assms(4)] show "?Q v"
    by (auto simp: update_conv')
next
  fix j u v
  assume j: "j \<in> set idxs" "j \<noteq> i" and u: "?Q u"
    and st: "value_step ps args vidx pp j u = Inr v"
  from value_loop_props(1) [OF run] j(1) assms(3) have "j < length ps" "i < length ps" by auto
  with wf j(2) have "param_name (ps ! i) \<noteq> param_name (ps ! j)" using wf_names by blast
  from value_step_mono(3) [OF st this] u show "?Q v" by simp
qed

lemma value_loop_keeps:
  assumes run: "for_range (value_step ps args vidx pp) [pp..<length ps] a = Inr b"
    and "i < pp" and "i < length ps" and wf: "wf_signature ps"
  shows "map_of (inferred_types b) (param_name (ps ! i)) = map_of (inferred_types a) (param_name (ps ! i))"
proof (rule value_loop_props(6) [OF run])
  show "\<forall>j\<in>set [pp..<length ps]. param_name (ps ! j) \<noteq> param_name (ps ! i)"
  proof
    fix j assume "j \<in> set [pp..<length ps]"
    with assms(2) have "j < length ps" "j \<noteq> i" by auto
    with wf assms(3) show "param_name (ps ! j) \<noteq> param_name (ps ! i)" using wf_names by blast
  qed
qed

lemma get_annotations_result:
  assumes res: "get_annotations pt h args kw = Inr r" and wu: "workunit h = PyFunction f ps"
  shows "\<exists>ut. r = (if inferred_types ut = [] then None else Some ut)
     \<and> ut_workunit ut = workunit h
     \<and> fst ` set (inferred_types ut) = is_arg ut
     \<and> is_arg ut = param_name ` {p \<in> set ps. annotation p = None}
     \<and> policy_params pt (policy h) \<le> length ps
     \<and> (wf_signature ps \<longrightarrow>
         (\<forall>i<policy_params pt (policy h). annotation (ps ! i) = None \<longrightarrow>
            map_of (inferred_types ut) (param_name (ps ! i)) =
              Some (if Suc i = policy_params pt (policy h) \<and> pt = ''parallel_reduce''
                    then ''Acc:float''
                    else if policy h = PyTeamPolicy then ''pk.TeamMember'' else ''int'')))
     \<and> (wf_signature ps \<longrightarrow>
         (\<forall>i. policy_params pt (policy h) \<le> i \<and> i < length ps \<and> annotation (ps ! i) = None \<longrightarrow>
            (\<exists>v. py_index (queue_kwargs ps (policy_params pt (policy h)) args kw)
                    (value_idx h + int i - int (policy_params pt (policy h))) = Inr v
               \<and> map_of (inferred_types ut) (param_name (ps ! i)) = Some (param_type v))))"
proof -
  let ?pp = "policy_params pt (policy h)"
  let ?N = "param_name ` {p \<in> set ps. annotation p = None}"
  let ?init = "\<lparr>ut_workunit = workunit h, inferred_types = [], is_arg = {}\<rparr>"
  let ?args = "queue_kwargs ps ?pp args kw"
  from get_annotations_Inr [OF res wu] obtain ut1 ut2 where
    l1: "for_range (policy_step pt (policy h) ps ?pp) [0..<?pp] ?init = Inr ut1"
    and l2: "length ps = ?pp \<and> ut2 = ut1
            \<or> length ps \<noteq> ?pp
              \<and> int (length ps) - int ?pp = int (length ?args) - value_idx h
              \<and> for_range (value_step ps ?args (value_idx h) ?pp) [?pp..<length ps] ut1 = Inr ut2"
    and r: "r = (if inferred_types ut2 = [] then None else Some ut2)"
    by blast
  note p1 = policy_loop_props [OF l1]
  have le: "?pp \<le> length ps"
  proof (cases "?pp")
    case 0 then show ?thesis by simp
  next
    case (Suc n)
    then have "n \<in> set [0..<?pp]" by simp
    with p1(1) have "n < length ps" by blast
    with Suc show ?thesis by simp
  qed
  have w1: "ut_workunit ut1 = workunit h" using p1(3) by simp
  have k1: "fst ` set (inferred_types ut1) = is_arg ut1" using p1(4) by simp
  have n1: "is_arg ut1 \<subseteq> ?N" using p1(5) by simp
  have second: "is_arg ut1 \<subseteq> is_arg ut2 \<and> ut_workunit ut2 = workunit h
      \<and> fst ` set (inferred_types ut2) = is_arg ut2 \<and> is_arg ut2 \<subseteq> ?N"
    using l2
  proof
    assume "length ps = ?pp \<and> ut2 = ut1"
    with w1 k1 n1 show ?thesis by simp
  next
    assume "length ps \<noteq> ?pp
              \<and> int (length ps) - int ?pp = int (length ?args) - value_idx h
              \<and> for_range (value_step ps ?args (value_idx h) ?pp) [?pp..<length ps] ut1 = Inr ut2"
    then have run2: "for_range (value_step ps ?args (value_idx h) ?pp) [?pp..<length ps] ut1 = Inr ut2"
      by simp
    note p2 = value_loop_props [OF run2]
    from p2(2) p2(3) w1 p2(4) [OF k1] p2(5) [OF n1] show ?thesis by simp
  qed
  then have mono: "is_arg ut1 \<subseteq> is_arg ut2" and w2: "ut_workunit ut2 = workunit h"
    and k2: "fst ` set (inferred_types ut2) = is_arg ut2" and n2: "is_arg ut2 \<subseteq> ?N"
    by simp_all
  have sup: "?N \<subseteq> is_arg ut2"
  proof
    fix x assume "x \<in> ?N"
    then obtain p where p: "p \<in> set ps" "annotation p = None" "x = param_name p" by blast
    then obtain i where i: "i < length ps" "ps ! i = p" by (auto simp: in_set_conv_nth)
    show "x \<in> is_arg ut2"
    proof (cases "i < ?pp")
      case True
      have "param_name (ps ! i) \<in> is_arg ut1"
        by (rule policy_loop_assigned [OF l1]) (use True i p in simp_all)
      with mono i p show ?thesis by blast
    next
      case False
      with i have ne: "length ps \<noteq> ?pp" by simp
      with l2 have run2: "for_range (value_step ps ?args (value_idx h) ?pp) [?pp..<length ps] ut1 = Inr ut2"
        by simp
      have "param_name (ps ! i) \<in> is_arg ut2"
        by (rule value_loop_assigned [OF run2]) (use False i p in simp_all)
      with i p show ?thesis by simp
    qed
  qed
  have t1: "map_of (inferred_types ut2) (param_name (ps ! i)) =
              Some (if Suc i = ?pp \<and> pt = ''parallel_reduce'' then ''Acc:float''
                    else if policy h = PyTeamPolicy then ''pk.TeamMember'' else ''int'')"
    if wf: "wf_signature ps" and i: "i < ?pp" "annotation (ps ! i) = None" for i
  proof -
    have a: "map_of (inferred_types ut1) (param_name (ps ! i)) =
              Some (if Suc i = ?pp \<and> pt = ''parallel_reduce'' then ''Acc:float''
                    else if policy h = PyTeamPolicy then ''pk.TeamMember'' else ''int'')"
      by (rule policy_loop_typed [OF l1]) (use wf i in simp_all)
    from l2 show ?thesis
    proof
      assume "length ps = ?pp \<and> ut2 = ut1"
      with a show ?thesis by simp
    next
      assume b: "length ps \<noteq> ?pp
              \<and> int (length ps) - int ?pp = int (length ?args) - value_idx h
              \<and> for_range (value_step ps ?args (value_idx h) ?pp) [?pp..<length ps] ut1 = Inr ut2"
      from i(1) le have "i < length ps" by simp
      from value_loop_keeps [OF _ i(1) this wf, of ?args "value_idx h" ut1 ut2] b a
      show ?thesis by simp
    qed
  qed
  have t2: "\<exists>v. py_index ?args (value_idx h + int i - int ?pp) = Inr v
               \<and> map_of (inferred_types ut2) (param_name (ps ! i)) = Some (param_type v)"
    if wf: "wf_signature ps" and i: "?pp \<le> i" "i < length ps" "annotation (ps ! i) = None" for i
  proof -
    from i have "length ps \<noteq> ?pp" by simp
    with l2 have run2: "for_range (value_step ps ?args (value_idx h) ?pp) [?pp..<length ps] ut1 = Inr ut2"
      by simp
    show ?thesis
      by (rule value_loop_typed [OF run2]) (use wf i in simp_all)
  qed
  from n2 sup have eqN: "is_arg ut2 = ?N" by (rule subset_antisym)
  show ?thesis
  proof (intro exI [of _ ut2] conjI impI allI)
    show "r = (if inferred_types ut2 = [] then None else Some ut2)" by (rule r)
    show "ut_workunit ut2 = workunit h" by (rule w2)
    show "fst ` set (inferred_types ut2) = is_arg ut2" by (rule k2)
    show "is_arg ut2 = ?N" by (rule eqN)
    show "?pp \<le> length ps" by (rule le)
  next
    fix i assume "wf_signature ps" "i < ?pp" "annotation (ps ! i) = None"
    then show "map_of (inferred_types ut2) (param_name (ps ! i)) =
              Some (if Suc i = ?pp \<and> pt = ''parallel_reduce'' then ''Acc:float''
                    else if policy h = PyTeamPolicy then ''pk.TeamMember'' else ''int'')"
      by (rule t1)
  next
    fix i assume wf: "wf_signature ps"
      and "?pp \<le> i \<and> i < length ps \<and> annotation (ps ! i) = None"
    then have "?pp \<le> i" "i < length ps" "annotation (ps ! i) = None" by simp_all
    with wf show "\<exists>v. py_index ?args (value_idx h + int i - int ?pp) = Inr v
               \<and> map_of (inferred_types ut2) (param_name (ps ! i)) = Some (param_type v)"
      by (rule t2)
  qed
qed

lemma get_annotations_callable:
  assumes "get_annotations pt h args kw = Inr r"
  shows "\<exists>f ps. workunit h = PyFunction f ps"
  using assms by (cases "workunit h") (simp_all add: get_annotations_def)

lemma get_annotations_record:
  assumes "get_annotations pt h args kw = Inr r" and "workunit h = PyFunction f ps"
  obtains ut where "r = (if inferred_types ut = [] then None else Some ut)"
    and "ut_workunit ut = workunit h"
    and "fst ` set (inferred_types ut) = is_arg ut"
    and "is_arg ut = param_name ` {q \<in> set ps. annotation q = None}"
  using get_annotations_result [OF assms]
proof (elim exE conjE)
  fix ut
  assume "r = (if inferred_types ut = [] then None else Some ut)"
    and "ut_workunit ut = workunit h"
    and "fst ` set (inferred_types ut) = is_arg ut"
    and "is_arg ut = param_name ` {p \<in> set ps. annotation p = None}"
  then show thesis by (rule that)
qed

lemma result_is_record:
  assumes "Some u = (if inferred_types ut = [] then None else Some ut)"
  shows "u = ut" and "inferred_types ut \<noteq> []"
proof -
  show ne: "inferred_types ut \<noteq> []"
  proof
    assume "inferred_types ut = []"
    with assms show False by simp
  qed
  with assms show "u = ut" by simp
qed

lemma get_annotations_types:
  assumes "get_annotations pt h args kw = Inr r" and "workunit h = PyFunction f ps"
    and "wf_signature ps"
  obtains ut where "r = (if inferred_types ut = [] then None else Some ut)"
    and "fst ` set (inferred_types ut) = is_arg ut"
    and "\<And>i. i < policy_params pt (policy h) \<Longrightarrow> annotation (ps ! i) = None \<Longrightarrow>
            map_of (inferred_types ut) (param_name (ps ! i)) =
              Some (if Suc i = policy_params pt (policy h) \<and> pt = ''parallel_reduce''
                    then ''Acc:float''
                    else if policy h = PyTeamPolicy then ''pk.TeamMember'' else ''int'')"
    and "\<And>i. policy_params pt (policy h) \<le> i \<Longrightarrow> i < length ps \<Longrightarrow> annotation (ps ! i) = None \<Longrightarrow>
            \<exists>v. py_index (queue_kwargs ps (policy_params pt (policy h)) args kw)
                    (value_idx h + int i - int (policy_params pt (policy h))) = Inr v
               \<and> map_of (inferred_types ut) (param_name (ps ! i)) = Some (param_type v)"
  using get_annotations_result [OF assms(1,2)]
proof (elim exE conjE)
  fix ut
  assume r: "r = (if inferred_types ut = [] then None else Some ut)"
    and k: "fst ` set (inferred_types ut) = is_arg ut"
    and t1: "wf_signature ps \<longrightarrow>
         (\<forall>i<policy_params pt (policy h). annotation (ps ! i) = None \<longrightarrow>
            map_of (inferred_types ut) (param_name (ps ! i)) =
              Some (if Suc i = policy_params pt (policy h) \<and> pt = ''parallel_reduce''
                    then ''Acc:float''
                    else if policy h = PyTeamPolicy then ''pk.TeamMember'' else ''int''))"
    and t2: "wf_signature ps \<longrightarrow>
         (\<forall>i. policy_params pt (policy h) \<le> i \<and> i < length ps \<and> annotation (ps ! i) = None \<longrightarrow>
            (\<exists>v. py_index (queue_kwargs ps (policy_params pt (policy h)) args kw)
                    (value_idx h + int i - int (policy_params pt (policy h))) = Inr v
               \<and> map_of (inferred_types ut) (param_name (ps ! i)) = Some (param_type v)))"
  have t1': "\<And>i. i < policy_params pt (policy h) \<Longrightarrow> annotation (ps ! i) = None \<Longrightarrow>
            map_of (inferred_types ut) (param_name (ps ! i)) =
              Some (if Suc i = policy_params pt (policy h) \<and> pt = ''parallel_reduce''
                    then ''Acc:float''
                    else if policy h = PyTeamPolicy then ''pk.TeamMember'' else ''int'')"
  proof -
    fix i assume i: "i < policy_params pt (policy h)" and a: "annotation (ps ! i) = None"
    from t1 [THEN mp, OF assms(3), THEN spec, of i] i
    have "annotation (ps ! i) = None \<longrightarrow>
            map_of (inferred_types ut) (param_name (ps ! i)) =
              Some (if Suc i = policy_params pt (policy h) \<and> pt = ''parallel_reduce''
                    then ''Acc:float''
                    else if policy h = PyTeamPolicy then ''pk.TeamMember'' else ''int'')"
      by (rule mp)
    from this a show "map_of (inferred_types ut) (param_name (ps ! i)) =
              Some (if Suc i = policy_params pt (policy h) \<and> pt = ''parallel_reduce''
                    then ''Acc:float''
                    else if policy h = PyTeamPolicy then ''pk.TeamMember'' else ''int'')"
      by (rule mp)
  qed
  have t2': "\<And>i. policy_params pt (policy h) \<le> i \<Longrightarrow> i < length ps \<Longrightarrow> annotation (ps ! i) = None \<Longrightarrow>
            \<exists>v. py_index (queue_kwargs ps (policy_params pt (policy h)) args kw)
                    (value_idx h + int i - int (policy_params pt (policy h))) = Inr v
               \<and> map_of (inferred_types ut) (param_name (ps ! i)) = Some (param_type v)"
  proof -
    fix i assume "policy_params pt (policy h) \<le> i" "i < length ps" "annotation (ps ! i) = None"
    then have "policy_params pt (policy h) \<le> i \<and> i < length ps \<and> annotation (ps ! i) = None"
      by (intro conjI)
    with t2 [THEN mp, OF assms(3), THEN spec, of i]
    show "\<exists>v. py_index (queue_kwargs ps (policy_params pt (policy h)) args kw)
                    (value_idx h + int i - int (policy_params pt (policy h))) = Inr v
               \<and> map_of (inferred_types ut) (param_name (ps ! i)) = Some (param_type v)"
      by (rule mp)
  qed
  from r k t1' t2' show thesis by (rule that)
qed

lemma typed_entry:
  assumes r: "r = (if inferred_types ut = [] then None else Some ut)"
    and k: "fst ` set (inferred_types ut) = is_arg ut"
    and m: "map_of (inferred_types ut) n = Some t"
  shows "r = Some ut" and "n \<in> is_arg ut"
proof -
  from m have "(n, t) \<in> set (inferred_types ut)" by (rule map_of_SomeD)
  then have ne: "inferred_types ut \<noteq> []" and "n \<in> fst ` set (inferred_types ut)"
    by force+
  with k show "n \<in> is_arg ut" by simp
  from r ne show "r = Some ut" by simp
qed

lemma policy_params_reduce_pos: "0 < policy_params ''parallel_reduce'' pol"
  by (simp add: policy_params_def)


lemma str_nat_2: "str_nat 2 = ''2''" and str_nat_Suc_Suc_0: "str_nat (Suc (Suc 0)) = ''2''"
  by (simp_all add: str_nat.simps digit_char_def)

lemma param_type_other: "\<not> isinstance_View v \<Longrightarrow> param_type v = type_name v"
  by (cases v) (simp_all add: param_type_def)

lemma py_index_nonneg:
  assumes "py_index xs k = Inr v" and "0 \<le> k"
  shows "nat k < length xs \<and> v = xs ! nat k"
  using assms by (auto simp: py_index_def split: if_splits)


lemma policy_step_unsupported:
  assumes "\<not> supported_policy pol" and "j < length ps"
  shows "policy_step pt pol ps pp j a =
           (if annotation (ps ! j) = None then Inl ValueError else Inr a)"
  using assms by (cases pol) (simp_all add: policy_step_def py_index_nat infer_from_policy_def)

lemma policy_loop_unsupported:
  assumes "\<not> supported_policy pol" and "\<forall>j\<in>set pre. j < length ps"
    and "i < length ps" and "annotation (ps ! i) = None"
  shows "for_range (policy_step pt pol ps pp) (pre @ i # post) a = Inl ValueError"
  using assms(2)
proof (induction pre arbitrary: a)
  case Nil
  from policy_step_unsupported [OF assms(1,3)] assms(4) show ?case by simp
next
  case (Cons j pre)
  then have j: "j < length ps" and rest: "\<forall>k\<in>set pre. k < length ps" by simp_all
  show ?case
  proof (cases "annotation (ps ! j) = None")
    case True
    with policy_step_unsupported [OF assms(1) j] show ?thesis by simp
  next
    case False
    with policy_step_unsupported [OF assms(1) j, of pt pp a]
    have "policy_step pt pol ps pp j a = Inr a" by simp
    with Cons.IH [OF rest] show ?thesis by simp
  qed
qed

lemma upt_split: "i < n \<Longrightarrow> [0..<n] = [0..<i] @ i # [Suc i..<n]"
  by (metis less_imp_le_nat upt_conv_Cons upt_add_eq_append le0 add_0 le_add_diff_inverse)


lemma policy_step_total:
  assumes "i < length ps" and "supported_policy pol \<or> annotation (ps ! i) \<noteq> None"
  shows "\<exists>b. policy_step pt pol ps pp i a = Inr b"
  using assms
  by (cases pol) (auto simp: policy_step_def py_index_nat infer_from_policy_def Let_def)

lemma value_step_total:
  assumes "i < length ps" and "0 \<le> vidx + int i - int pp"
    and "vidx + int i - int pp < int (length args)"
  shows "\<exists>b. value_step ps args vidx pp i a = Inr b"
  using assms by (simp add: value_step_def py_index_nat py_index_def)

lemma length_queued:
  "length (concat (map (\<lambda>param. case map_of kw (param_name param) of Some v \<Rightarrow> [v] | None \<Rightarrow> []) xs))
     = length (filter (\<lambda>p. param_name p \<in> fst ` set kw) xs)"
proof (induction xs)
  case Nil
  then show ?case by simp
next
  case (Cons x xs)
  show ?case
  proof (cases "map_of kw (param_name x)")
    case None
    then have "param_name x \<notin> fst ` set kw" by (simp add: map_of_eq_None_iff)
    with None Cons.IH show ?thesis by simp
  next
    case (Some v)
    then have "(param_name x, v) \<in> set kw" by (rule map_of_SomeD)
    then have "param_name x \<in> fst ` set kw" by force
    with Some Cons.IH show ?thesis by simp
  qed
qed

lemma length_queue_kwargs:
  "length (queue_kwargs ps pp args kw)
     = length args + length (filter (\<lambda>p. param_name p \<in> fst ` set kw) (drop pp ps))"
proof (cases "kw = []")
  case True
  then show ?thesis by (simp add: queue_kwargs_def)
next
  case False
  then show ?thesis by (simp add: queue_kwargs_def length_queued)
qed


lemma digit_char_props:
  assumes "n < 10"
  shows "digit_value (digit_char n) = n" and "digit_char n \<in> set ''0123456789''"
    and "digit_char n = CHR ''0'' \<longrightarrow> n = 0"
proof -
  have table: "\<forall>k\<in>{0..<10}. digit_value (digit_char k) = k \<and> digit_char k \<in> set ''0123456789''
                 \<and> (digit_char k = CHR ''0'' \<longrightarrow> k = 0)"
    by code_simp
  from assms have "n \<in> {0..<10}" by simp
  with table show "digit_value (digit_char n) = n" and "digit_char n \<in> set ''0123456789''"
    and "digit_char n = CHR ''0'' \<longrightarrow> n = 0"
    by blast+
qed

lemma decimal_value_snoc: "decimal_value (s @ [c]) = 10 * decimal_value s + digit_value c"
  by (simp add: decimal_value_def)

lemma str_nat_decimal:
  "str_nat n \<noteq> [] \<and> set (str_nat n) \<subseteq> set ''0123456789'' \<and> decimal_value (str_nat n) = n
   \<and> (hd (str_nat n) = CHR ''0'' \<longrightarrow> n = 0)"
proof (induction n rule: str_nat.induct)
  case (1 n)
  show ?case
  proof (cases "n < 10")
    case True
    then have s: "str_nat n = [digit_char n]" by (simp add: str_nat.simps)
    from digit_char_props [OF True] show ?thesis
      unfolding s by (simp add: decimal_value_def)
  next
    case False
    then have s: "str_nat n = str_nat (n div 10) @ [digit_char (n mod 10)]"
      by (simp add: str_nat.simps)
    have m: "n mod 10 < 10" by simp
    from False have d: "n div 10 \<noteq> 0" by simp
    note ih = "1.IH" [OF False]
    from ih have ne: "str_nat (n div 10) \<noteq> []" by simp
    have "set (str_nat n) \<subseteq> set ''0123456789''"
      unfolding s using ih digit_char_props(2) [OF m] by simp
    moreover have "decimal_value (str_nat n) = n"
      unfolding s decimal_value_snoc using ih digit_char_props(1) [OF m] by simp
    moreover have "hd (str_nat n) = CHR ''0'' \<longrightarrow> n = 0"
      unfolding s using ne ih d by simp
    moreover have "str_nat n \<noteq> []" unfolding s by simp
    ultimately show ?thesis by simp
  qed
qed

lemma queued_values:
  "concat (map (\<lambda>param. case map_of kw (param_name param) of Some v \<Rightarrow> [v] | None \<Rightarrow> []) xs)
     = map (\<lambda>p. the (map_of kw (param_name p))) (filter (\<lambda>p. param_name p \<in> fst ` set kw) xs)"
proof (induction xs)
  case Nil
  then show ?case by simp
next
  case (Cons x xs)
  show ?case
  proof (cases "map_of kw (param_name x)")
    case None
    then have "param_name x \<notin> fst ` set kw" by (simp add: map_of_eq_None_iff)
    with None Cons.IH show ?thesis by simp
  next
    case (Some v)
    then have "(param_name x, v) \<in> set kw" by (rule map_of_SomeD)
    then have "param_name x \<in> fst ` set kw" by force
    with Some Cons.IH show ?thesis by simp
  qed
qed

lemma queue_kwargs_eq:
  "queue_kwargs ps pp args kw
     = args @ map (\<lambda>p. the (map_of kw (param_name p)))
                  (filter (\<lambda>p. param_name p \<in> fst ` set kw) (drop pp ps))"
proof (cases "kw = []")
  case True
  then show ?thesis by (simp add: queue_kwargs_def)
next
  case False
  then show ?thesis by (simp add: queue_kwargs_def queued_values)
qed

lemma str_nat_3: "str_nat 3 = ''3''" and str_nat_12: "str_nat 12 = ''12''"
  by (simp_all add: str_nat.simps digit_char_def)

lemma unpack_args_arity:
  "length us \<noteq> 2 \<Longrightarrow> length us \<noteq> 3 \<Longrightarrow> length us \<noteq> 4 \<Longrightarrow> unpack_args f us = Inl ValueError"
  by (cases "(f, us)" rule: unpack_args.cases) simp_all

lemma unpack_args_Inr:
  assumes "unpack_args f us = Inr (nm, pol, wu, vw, iv)"
  shows "2 \<le> length us \<and> pol = (if nm = None then us ! 0 else us ! 1)"
  using assms
  by (cases "(f, us)" rule: unpack_args.cases) (auto split: pyval.splits if_splits)


section \<open>The unpacker\<close>

text \<open>
  Claim C2.  The unpacker classifies its argument tuple by arity and by the classes of
  the elements, in a fixed order.  Two elements are (policy, workunit), with no name, no
  view and initial value 0.  Three elements: a string first element gives (name, policy,
  workunit); otherwise, in for-mode with a \<open>ViewType\<close> third element, (policy, workunit,
  view); otherwise a numeric third element gives (policy, workunit, initial value);
  otherwise \<open>TypeError\<close>.  Four elements need a string first element, and the fourth is a
  view (for-mode) or a numeric initial value, or else \<open>TypeError\<close>.  Any other number of
  elements raises \<open>ValueError\<close>.  The policy of each record is the resolved one
  (\<open>resolve_policy\<close>).
\<close>

theorem handle_args_classification:
  "handle_args sp fa [aw, ax] =
     Inr \<lparr>name = None, policy = resolve_policy sp aw, workunit = ax, view = None,
          initial_value = PyInt 0\<rparr>
 \<and> handle_args sp fb [PyStr sb, bx, bv] =
     Inr \<lparr>name = Some sb, policy = resolve_policy sp bx, workunit = bv, view = None,
          initial_value = PyInt 0\<rparr>
 \<and> (\<not> isinstance_str cw \<and> fc \<and> isinstance_ViewType cy \<longrightarrow>
      handle_args sp fc [cw, cx, cy] =
        Inr \<lparr>name = None, policy = resolve_policy sp cw, workunit = cx, view = Some cy,
             initial_value = PyInt 0\<rparr>)
 \<and> (\<not> isinstance_str dw \<and> \<not> (fd \<and> isinstance_ViewType dy) \<and> isinstance_int_float dy \<longrightarrow>
      handle_args sp fd [dw, dx, dy] =
        Inr \<lparr>name = None, policy = resolve_policy sp dw, workunit = dx, view = None,
             initial_value = dy\<rparr>)
 \<and> (\<not> isinstance_str ew \<and> \<not> (fe \<and> isinstance_ViewType ey) \<and> \<not> isinstance_int_float ey \<longrightarrow>
      handle_args sp fe [ew, ex, ey] = Inl TypeError)
 \<and> (fg \<and> isinstance_ViewType gz \<longrightarrow>
      handle_args sp fg [PyStr sg, gx, gy, gz] =
        Inr \<lparr>name = Some sg, policy = resolve_policy sp gx, workunit = gy, view = Some gz,
             initial_value = PyInt 0\<rparr>)
 \<and> (\<not> (fh \<and> isinstance_ViewType hz) \<and> isinstance_int_float hz \<longrightarrow>
      handle_args sp fh [PyStr sh, hx, hy, hz] =
        Inr \<lparr>name = Some sh, policy = resolve_policy sp hx, workunit = hy, view = None,
             initial_value = hz\<rparr>)
 \<and> (\<not> (fi \<and> isinstance_ViewType iz) \<and> \<not> isinstance_int_float iz \<longrightarrow>
      handle_args sp fi [PyStr si, ix, iy, iz] = Inl TypeError)
 \<and> (\<not> isinstance_str jw \<longrightarrow> handle_args sp fj [jw, jx, jy, jz] = Inl TypeError)
 \<and> (length us \<noteq> 2 \<and> length us \<noteq> 3 \<and> length us \<noteq> 4 \<longrightarrow>
      handle_args sp fk us = Inl ValueError)"
proof (intro conjI impI)
  show "handle_args sp fa [aw, ax] =
     Inr \<lparr>name = None, policy = resolve_policy sp aw, workunit = ax, view = None,
          initial_value = PyInt 0\<rparr>"
    by (simp add: handle_args_def)
  show "handle_args sp fb [PyStr sb, bx, bv] =
     Inr \<lparr>name = Some sb, policy = resolve_policy sp bx, workunit = bv, view = None,
          initial_value = PyInt 0\<rparr>"
    by (simp add: handle_args_def)
  show "handle_args sp fc [cw, cx, cy] =
        Inr \<lparr>name = None, policy = resolve_policy sp cw, workunit = cx, view = Some cy,
             initial_value = PyInt 0\<rparr>"
    if "\<not> isinstance_str cw \<and> fc \<and> isinstance_ViewType cy"
    using that by (cases cw) (simp_all add: handle_args_def)
  show "handle_args sp fd [dw, dx, dy] =
        Inr \<lparr>name = None, policy = resolve_policy sp dw, workunit = dx, view = None,
             initial_value = dy\<rparr>"
    if "\<not> isinstance_str dw \<and> \<not> (fd \<and> isinstance_ViewType dy) \<and> isinstance_int_float dy"
    using that by (cases dw) (auto simp: handle_args_def)
  show "handle_args sp fe [ew, ex, ey] = Inl TypeError"
    if "\<not> isinstance_str ew \<and> \<not> (fe \<and> isinstance_ViewType ey) \<and> \<not> isinstance_int_float ey"
    using that by (cases ew) (auto simp: handle_args_def)
  show "handle_args sp fg [PyStr sg, gx, gy, gz] =
        Inr \<lparr>name = Some sg, policy = resolve_policy sp gx, workunit = gy, view = Some gz,
             initial_value = PyInt 0\<rparr>"
    if "fg \<and> isinstance_ViewType gz"
    using that by (simp add: handle_args_def)
  show "handle_args sp fh [PyStr sh, hx, hy, hz] =
        Inr \<lparr>name = Some sh, policy = resolve_policy sp hx, workunit = hy, view = None,
             initial_value = hz\<rparr>"
    if "\<not> (fh \<and> isinstance_ViewType hz) \<and> isinstance_int_float hz"
    using that by (auto simp: handle_args_def)
  show "handle_args sp fi [PyStr si, ix, iy, iz] = Inl TypeError"
    if "\<not> (fi \<and> isinstance_ViewType iz) \<and> \<not> isinstance_int_float iz"
    using that by (auto simp: handle_args_def)
  show "handle_args sp fj [jw, jx, jy, jz] = Inl TypeError" if "\<not> isinstance_str jw"
    using that by (cases jw) (simp_all add: handle_args_def)
  show "handle_args sp fk us = Inl ValueError"
    if "length us \<noteq> 2 \<and> length us \<noteq> 3 \<and> length us \<noteq> 4"
    using that by (simp add: handle_args_def unpack_args_arity)
qed

theorem handle_args_classification_witness:
  "handle_args (ExecutionSpace ''OpenMP'') False
     [PyRangePolicy (ExecutionSpace ''Cuda'') (PyInt 0) (PyInt 8), PyFunction ''w'' [], PyView [4, 4] ''float64''] = Inl TypeError
 \<and> handle_args (ExecutionSpace ''OpenMP'') True
     [PyRangePolicy (ExecutionSpace ''Cuda'') (PyInt 0) (PyInt 8), PyFunction ''w'' [], PyView [4, 4] ''float64''] =
     Inr \<lparr>name = None, policy = PyRangePolicy (ExecutionSpace ''Cuda'') (PyInt 0) (PyInt 8),
          workunit = PyFunction ''w'' [], view = Some (PyView [4, 4] ''float64''),
          initial_value = PyInt 0\<rparr>
 \<and> handle_args (ExecutionSpace ''OpenMP'') False [PyInt 8, PyFunction ''w'' [], PyFloat 0] =
     Inr \<lparr>name = None, policy = PyRangePolicy (ExecutionSpace ''OpenMP'') (PyInt 0) (PyInt 8),
          workunit = PyFunction ''w'' [], view = None, initial_value = PyFloat 0\<rparr>
 \<and> handle_args (ExecutionSpace ''OpenMP'') True
     [PyStr ''k'', PyInt 8, PyFunction ''w'' [], PyViewType ''Subview''] =
     Inr \<lparr>name = Some ''k'', policy = PyRangePolicy (ExecutionSpace ''OpenMP'') (PyInt 0) (PyInt 8),
          workunit = PyFunction ''w'' [], view = Some (PyViewType ''Subview''),
          initial_value = PyInt 0\<rparr>
 \<and> handle_args (ExecutionSpace ''OpenMP'') False [PyStr ''k'', PyInt 8, PyFunction ''w'' [], PyInt 3] =
     Inr \<lparr>name = Some ''k'', policy = PyRangePolicy (ExecutionSpace ''OpenMP'') (PyInt 0) (PyInt 8),
          workunit = PyFunction ''w'' [], view = None, initial_value = PyInt 3\<rparr>
 \<and> handle_args (ExecutionSpace ''OpenMP'') False [PyStr ''k'', PyInt 8, PyFunction ''w'' [], PyNone] =
     Inl TypeError
 \<and> handle_args (ExecutionSpace ''OpenMP'') True [PyInt 8, PyFunction ''w'' [], PyInt 3, PyInt 4] =
     Inl TypeError
 \<and> handle_args (ExecutionSpace ''OpenMP'') True [PyInt 8, PyFunction ''w'' [], PyInt 3, PyInt 4, PyInt 5] =
     Inl ValueError"
  using handle_args_classification
    [where sp = "ExecutionSpace ''OpenMP''"
       and ew = "PyRangePolicy (ExecutionSpace ''Cuda'') (PyInt 0) (PyInt 8)"
       and ex = "PyFunction ''w'' []" and ey = "PyView [4, 4] ''float64''" and fe = False
       and cw = "PyRangePolicy (ExecutionSpace ''Cuda'') (PyInt 0) (PyInt 8)"
       and cx = "PyFunction ''w'' []" and cy = "PyView [4, 4] ''float64''" and fc = True
       and dw = "PyInt 8" and dx = "PyFunction ''w'' []" and dy = "PyFloat 0" and fd = False
       and sg = "''k''" and gx = "PyInt 8" and gy = "PyFunction ''w'' []"
       and gz = "PyViewType ''Subview''" and fg = True
       and sh = "''k''" and hx = "PyInt 8" and hy = "PyFunction ''w'' []" and hz = "PyInt 3"
       and fh = False
       and si = "''k''" and ix = "PyInt 8" and iy = "PyFunction ''w'' []" and iz = PyNone
       and fi = False
       and jw = "PyInt 8" and jx = "PyFunction ''w'' []" and jy = "PyInt 3" and jz = "PyInt 4"
       and fj = True
       and us = "[PyInt 8, PyFunction ''w'' [], PyInt 3, PyInt 4, PyInt 5]" and fk = True]
  by (simp add: resolve_policy_def)


text \<open>
  Claim C3.  Whenever the unpacker returns a record, the tuple has the policy at index 0
  (no name) or 1 (name given).  If that element is the integer \<open>N\<close>, the policy of the record
  is \<open>RangePolicy(default_space, 0, N)\<close>; an element that is not an instance of \<open>int\<close> is
  returned unchanged.  (In Python \<open>bool\<close> is a subclass of \<open>int\<close>, so \<open>True\<close> and
  \<open>False\<close> count as integers here.)
\<close>

theorem int_policy_wrapped:
  assumes "handle_args sp is_for us = Inr h"
  shows "2 \<le> length us \<and>
         (let p = (if name h = None then us ! 0 else us ! 1)
          in (\<forall>n. p = PyInt n \<longrightarrow> policy h = PyRangePolicy sp (PyInt 0) (PyInt n))
           \<and> (isinstance_int p \<longrightarrow> policy h = PyRangePolicy sp (PyInt 0) p)
           \<and> (\<not> isinstance_int p \<longrightarrow> policy h = p))"
proof -
  from assms obtain nm pol wu vw iv where u: "unpack_args is_for us = Inr (nm, pol, wu, vw, iv)"
    and h: "h = \<lparr>name = nm, policy = resolve_policy sp pol, workunit = wu, view = vw,
                 initial_value = iv\<rparr>"
    by (auto simp: handle_args_def split: sum.splits)
  from unpack_args_Inr [OF u] h show ?thesis
    by (auto simp: resolve_policy_def Let_def)
qed

theorem int_policy_wrapped_witness:
  "handle_args (ExecutionSpace ''OpenMP'') True [PyStr ''k'', PyInt 8, PyFunction ''w'' []] =
     Inr \<lparr>name = Some ''k'', policy = PyRangePolicy (ExecutionSpace ''OpenMP'') (PyInt 0) (PyInt 8),
          workunit = PyFunction ''w'' [], view = None, initial_value = PyInt 0\<rparr>
   \<and> policy \<lparr>name = Some ''k'', policy = PyRangePolicy (ExecutionSpace ''OpenMP'') (PyInt 0) (PyInt 8),
          workunit = PyFunction ''w'' [], view = None, initial_value = PyInt 0\<rparr>
     = PyRangePolicy (ExecutionSpace ''OpenMP'') (PyInt 0) ([PyStr ''k'', PyInt 8, PyFunction ''w'' []] ! 1)"
proof -
  have run: "handle_args (ExecutionSpace ''OpenMP'') True [PyStr ''k'', PyInt 8, PyFunction ''w'' []] =
     Inr \<lparr>name = Some ''k'', policy = PyRangePolicy (ExecutionSpace ''OpenMP'') (PyInt 0) (PyInt 8),
          workunit = PyFunction ''w'' [], view = None, initial_value = PyInt 0\<rparr>"
    by (simp add: handle_args_def resolve_policy_def)
  from int_policy_wrapped [OF run] run show ?thesis by simp
qed

section \<open>The inferencer\<close>

text \<open>
  Claim C9.  In every result that the inferencer returns, the set \<open>is_arg\<close> is the key
  set of \<open>inferred_types\<close>: the two are only ever extended together, by the same name.
\<close>

theorem is_arg_equals_inferred_keys:
  assumes "get_annotations pt h args kw = Inr (Some u)"
  shows "is_arg u = fst ` set (inferred_types u)"
proof -
  from get_annotations_callable [OF assms] obtain f ps where wu: "workunit h = PyFunction f ps"
    by blast
  from get_annotations_result [OF assms wu] obtain ut where
    "Some u = (if inferred_types ut = [] then None else Some ut)"
    and k: "fst ` set (inferred_types ut) = is_arg ut"
    by blast
  then have "u = ut" by (simp split: if_splits)
  with k show ?thesis by simp
qed

theorem is_arg_equals_inferred_keys_witness:
  "get_annotations ''parallel_for''
     \<lparr>name = None, policy = PyRangePolicy (ExecutionSpace ''OpenMP'') (PyInt 0) (PyInt 8),
      workunit = PyFunction ''w'' [\<lparr>param_name = ''i'', annotation = None\<rparr>,
                                   \<lparr>param_name = ''v'', annotation = None\<rparr>],
      view = None, initial_value = PyInt 0\<rparr>
     [PyInt 8, PyFunction ''w'' [\<lparr>param_name = ''i'', annotation = None\<rparr>,
                                 \<lparr>param_name = ''v'', annotation = None\<rparr>],
      PyView [4, 4] ''float64''] []
   = Inr (Some \<lparr>ut_workunit = PyFunction ''w'' [\<lparr>param_name = ''i'', annotation = None\<rparr>,
                                                \<lparr>param_name = ''v'', annotation = None\<rparr>],
                inferred_types = [(''i'', ''int''), (''v'', ''View2D:float64'')],
                is_arg = {''i'', ''v''}\<rparr>)
   \<and> {''i'', ''v''} = fst ` set [(''i'', ''int''), (''v'', ''View2D:float64'')]"
proof -
  have run: "get_annotations ''parallel_for''
     \<lparr>name = None, policy = PyRangePolicy (ExecutionSpace ''OpenMP'') (PyInt 0) (PyInt 8),
      workunit = PyFunction ''w'' [\<lparr>param_name = ''i'', annotation = None\<rparr>,
                                   \<lparr>param_name = ''v'', annotation = None\<rparr>],
      view = None, initial_value = PyInt 0\<rparr>
     [PyInt 8, PyFunction ''w'' [\<lparr>param_name = ''i'', annotation = None\<rparr>,
                                 \<lparr>param_name = ''v'', annotation = None\<rparr>],
      PyView [4, 4] ''float64''] []
   = Inr (Some \<lparr>ut_workunit = PyFunction ''w'' [\<lparr>param_name = ''i'', annotation = None\<rparr>,
                                                \<lparr>param_name = ''v'', annotation = None\<rparr>],
                inferred_types = [(''i'', ''int''), (''v'', ''View2D:float64'')],
                is_arg = {''i'', ''v''}\<rparr>)"
    by code_simp
  from is_arg_equals_inferred_keys [OF run] run show ?thesis by simp
qed

text \<open>
  Claim C10.  A parameter that carries an explicit annotation is never given an inferred
  type: in any result its name is neither a key of \<open>inferred_types\<close> nor a member of
  \<open>is_arg\<close>.  This includes an annotated accumulator of a \<open>parallel_reduce\<close> dispatch,
  which is therefore not assigned \<open>Acc:float\<close>.  (The names of a Python signature are
  pairwise different.)
\<close>

theorem annotated_parameter_not_inferred:
  assumes res: "get_annotations pt h args kw = Inr (Some u)"
    and wu: "workunit h = PyFunction f ps" and wf: "wf_signature ps"
    and p: "p \<in> set ps" "annotation p \<noteq> None"
  shows "param_name p \<notin> is_arg u \<and> param_name p \<notin> fst ` set (inferred_types u)
       \<and> map_of (inferred_types u) (param_name p) = None"
proof -
  from get_annotations_record [OF res wu] obtain ut where
    r: "Some u = (if inferred_types ut = [] then None else Some ut)"
    and "ut_workunit ut = workunit h"
    and k: "fst ` set (inferred_types ut) = is_arg ut"
    and n: "is_arg ut = param_name ` {q \<in> set ps. annotation q = None}" .
  from result_is_record(1) [OF r] k n
  have ku: "fst ` set (inferred_types u) = is_arg u"
    and nu: "is_arg u = param_name ` {q \<in> set ps. annotation q = None}" by simp_all
  from wf have inj: "inj_on param_name (set ps)"
    by (simp add: wf_signature_def distinct_map)
  have notin: "param_name p \<notin> is_arg u"
  proof
    assume "param_name p \<in> is_arg u"
    with nu obtain q where q: "q \<in> set ps" "annotation q = None" "param_name p = param_name q"
      by blast
    from inj q(3) p(1) q(1) have "p = q" by (rule inj_onD)
    with q(2) p(2) show False by simp
  qed
  with ku have "param_name p \<notin> fst ` set (inferred_types u)" by simp
  moreover from this have "map_of (inferred_types u) (param_name p) = None"
    by (simp add: map_of_eq_None_iff)
  ultimately show ?thesis using notin by simp
qed

theorem annotated_parameter_not_inferred_witness:
  "get_annotations ''parallel_reduce''
     \<lparr>name = None, policy = PyTeamPolicy,
      workunit = PyFunction ''w'' [\<lparr>param_name = ''m'', annotation = None\<rparr>,
                                   \<lparr>param_name = ''acc'', annotation = Some ''pk.Acc[pk.double]''\<rparr>],
      view = None, initial_value = PyInt 0\<rparr>
     [PyTeamPolicy, PyFunction ''w'' [\<lparr>param_name = ''m'', annotation = None\<rparr>,
                                     \<lparr>param_name = ''acc'', annotation = Some ''pk.Acc[pk.double]''\<rparr>]] []
   = Inr (Some \<lparr>ut_workunit = PyFunction ''w'' [\<lparr>param_name = ''m'', annotation = None\<rparr>,
                                   \<lparr>param_name = ''acc'', annotation = Some ''pk.Acc[pk.double]''\<rparr>],
                inferred_types = [(''m'', ''pk.TeamMember'')], is_arg = {''m''}\<rparr>)
   \<and> wf_signature [\<lparr>param_name = ''m'', annotation = None\<rparr>,
                    \<lparr>param_name = ''acc'', annotation = Some ''pk.Acc[pk.double]''\<rparr>]
   \<and> ''acc'' \<notin> {''m''} \<and> map_of [(''m'', ''pk.TeamMember'')] ''acc'' = None"
proof -
  have run: "get_annotations ''parallel_reduce''
     \<lparr>name = None, policy = PyTeamPolicy,
      workunit = PyFunction ''w'' [\<lparr>param_name = ''m'', annotation = None\<rparr>,
                                   \<lparr>param_name = ''acc'', annotation = Some ''pk.Acc[pk.double]''\<rparr>],
      view = None, initial_value = PyInt 0\<rparr>
     [PyTeamPolicy, PyFunction ''w'' [\<lparr>param_name = ''m'', annotation = None\<rparr>,
                                     \<lparr>param_name = ''acc'', annotation = Some ''pk.Acc[pk.double]''\<rparr>]] []
   = Inr (Some \<lparr>ut_workunit = PyFunction ''w'' [\<lparr>param_name = ''m'', annotation = None\<rparr>,
                                   \<lparr>param_name = ''acc'', annotation = Some ''pk.Acc[pk.double]''\<rparr>],
                inferred_types = [(''m'', ''pk.TeamMember'')], is_arg = {''m''}\<rparr>)"
    by code_simp
  have wf: "wf_signature [\<lparr>param_name = ''m'', annotation = None\<rparr>,
                    \<lparr>param_name = ''acc'', annotation = Some ''pk.Acc[pk.double]''\<rparr>]"
    by (simp add: wf_signature_def)
  have wu: "workunit \<lparr>name = None, policy = PyTeamPolicy,
      workunit = PyFunction ''w'' [\<lparr>param_name = ''m'', annotation = None\<rparr>,
                                   \<lparr>param_name = ''acc'', annotation = Some ''pk.Acc[pk.double]''\<rparr>],
      view = None, initial_value = PyInt 0\<rparr>
     = PyFunction ''w'' [\<lparr>param_name = ''m'', annotation = None\<rparr>,
                         \<lparr>param_name = ''acc'', annotation = Some ''pk.Acc[pk.double]''\<rparr>]"
    by simp
  have p: "\<lparr>param_name = ''acc'', annotation = Some ''pk.Acc[pk.double]''\<rparr>
           \<in> set [\<lparr>param_name = ''m'', annotation = None\<rparr>,
                   \<lparr>param_name = ''acc'', annotation = Some ''pk.Acc[pk.double]''\<rparr>]"
    "annotation \<lparr>param_name = ''acc'', annotation = Some ''pk.Acc[pk.double]''\<rparr> \<noteq> None"
    by simp_all
  from annotated_parameter_not_inferred [OF run wu wf p] have "''acc'' \<notin> {''m''}
      \<and> map_of [(''m'', ''pk.TeamMember'')] ''acc'' = None" by simp
  with run wf show ?thesis by blast
qed


text \<open>
  Claim C8.  Whenever the inferencer returns normally, the result is absent exactly when
  nothing was inferred, which is the case exactly when every parameter of the workunit
  carries an annotation; a result that is present holds at least one inferred type (also
  on the early return, when there is no parameter beyond the policy slots) and refers to
  the workunit of the call.
\<close>

theorem absent_iff_nothing_inferred:
  assumes res: "get_annotations pt h args kw = Inr r" and wu: "workunit h = PyFunction f ps"
  shows "(r = None \<longleftrightarrow> (\<forall>p\<in>set ps. annotation p \<noteq> None))
       \<and> (\<forall>u. r = Some u \<longrightarrow> inferred_types u \<noteq> [] \<and> ut_workunit u = workunit h)"
proof -
  from get_annotations_record [OF res wu] obtain ut where
    r: "r = (if inferred_types ut = [] then None else Some ut)"
    and w: "ut_workunit ut = workunit h"
    and k: "fst ` set (inferred_types ut) = is_arg ut"
    and n: "is_arg ut = param_name ` {q \<in> set ps. annotation q = None}" .
  have e1: "inferred_types ut = [] \<longleftrightarrow> is_arg ut = {}"
    unfolding k [symmetric] by simp
  have e2: "is_arg ut = {} \<longleftrightarrow> (\<forall>p\<in>set ps. annotation p \<noteq> None)"
    unfolding n by auto
  from e1 e2 have e: "inferred_types ut = [] \<longleftrightarrow> (\<forall>p\<in>set ps. annotation p \<noteq> None)"
    by (rule trans)
  show ?thesis
  proof (cases "inferred_types ut = []")
    case True
    with r have "r = None" by simp
    with True e show ?thesis by simp
  next
    case False
    with r have "r = Some ut" by simp
    with False e w show ?thesis by simp
  qed
qed

theorem absent_iff_nothing_inferred_witness:
  "get_annotations ''parallel_for''
     \<lparr>name = Some ''k'', policy = PyRangePolicy (ExecutionSpace ''OpenMP'') (PyInt 0) (PyInt 8),
      workunit = PyFunction ''w'' [\<lparr>param_name = ''i'', annotation = Some ''int''\<rparr>],
      view = None, initial_value = PyInt 0\<rparr>
     [PyStr ''k'', PyInt 8, PyFunction ''w'' [\<lparr>param_name = ''i'', annotation = Some ''int''\<rparr>]] []
   = Inr None
   \<and> annotation \<lparr>param_name = ''i'', annotation = Some ''int''\<rparr> \<noteq> None"
proof -
  have run: "get_annotations ''parallel_for''
     \<lparr>name = Some ''k'', policy = PyRangePolicy (ExecutionSpace ''OpenMP'') (PyInt 0) (PyInt 8),
      workunit = PyFunction ''w'' [\<lparr>param_name = ''i'', annotation = Some ''int''\<rparr>],
      view = None, initial_value = PyInt 0\<rparr>
     [PyStr ''k'', PyInt 8, PyFunction ''w'' [\<lparr>param_name = ''i'', annotation = Some ''int''\<rparr>]] []
   = Inr None"
    by code_simp
  have wu: "workunit \<lparr>name = Some ''k'',
      policy = PyRangePolicy (ExecutionSpace ''OpenMP'') (PyInt 0) (PyInt 8),
      workunit = PyFunction ''w'' [\<lparr>param_name = ''i'', annotation = Some ''int''\<rparr>],
      view = None, initial_value = PyInt 0\<rparr>
     = PyFunction ''w'' [\<lparr>param_name = ''i'', annotation = Some ''int''\<rparr>]"
    by simp
  from absent_iff_nothing_inferred [OF run wu]
  have "\<forall>p\<in>set [\<lparr>param_name = ''i'', annotation = Some ''int''\<rparr>]. annotation p \<noteq> None"
    by blast
  then have "annotation \<lparr>param_name = ''i'', annotation = Some ''int''\<rparr> \<noteq> None"
    by simp
  with run show ?thesis by blast
qed

text \<open>
  Claim C1, as amended.  In a \<open>parallel_reduce\<close> dispatch on which the inferencer returns
  normally, if the parameter in the last policy slot (index \<open>policy_params - 1\<close>, the
  accumulator) has no explicit annotation, then the result is present, gives that
  parameter the type \<open>Acc:float\<close> whatever the policy would assign, and lists it in
  \<open>is_arg\<close>.
\<close>

theorem accumulator_gets_Acc_float:
  assumes res: "get_annotations ''parallel_reduce'' h args kw = Inr r"
    and wu: "workunit h = PyFunction f ps" and wf: "wf_signature ps"
    and acc: "annotation (ps ! (policy_params ''parallel_reduce'' (policy h) - 1)) = None"
  shows "\<exists>u. r = Some u
      \<and> map_of (inferred_types u)
           (param_name (ps ! (policy_params ''parallel_reduce'' (policy h) - 1))) = Some ''Acc:float''
      \<and> param_name (ps ! (policy_params ''parallel_reduce'' (policy h) - 1)) \<in> is_arg u"
proof -
  let ?pp = "policy_params ''parallel_reduce'' (policy h)"
  let ?n = "param_name (ps ! (?pp - 1))"
  have pos: "0 < ?pp" by (rule policy_params_reduce_pos)
  then have lt: "?pp - 1 < ?pp" and suc: "Suc (?pp - 1) = ?pp" by simp_all
  from get_annotations_types [OF res wu wf] obtain ut where
    r: "r = (if inferred_types ut = [] then None else Some ut)"
    and k: "fst ` set (inferred_types ut) = is_arg ut"
    and t1: "\<And>i. i < ?pp \<Longrightarrow> annotation (ps ! i) = None \<Longrightarrow>
            map_of (inferred_types ut) (param_name (ps ! i)) =
              Some (if Suc i = ?pp \<and> ''parallel_reduce'' = ''parallel_reduce''
                    then ''Acc:float''
                    else if policy h = PyTeamPolicy then ''pk.TeamMember'' else ''int'')"
    by blast
  from t1 [OF lt acc] suc have m: "map_of (inferred_types ut) ?n = Some ''Acc:float''" by simp
  from typed_entry [OF r k m] m show ?thesis by blast
qed


theorem accumulator_gets_Acc_float_witness:
  "get_annotations ''parallel_reduce''
     \<lparr>name = None, policy = PyMDRangePolicy [0, 0],
      workunit = PyFunction ''w'' [\<lparr>param_name = ''i'', annotation = None\<rparr>,
                                   \<lparr>param_name = ''j'', annotation = None\<rparr>,
                                   \<lparr>param_name = ''acc'', annotation = None\<rparr>],
      view = None, initial_value = PyInt 0\<rparr>
     [PyMDRangePolicy [0, 0],
      PyFunction ''w'' [\<lparr>param_name = ''i'', annotation = None\<rparr>,
                        \<lparr>param_name = ''j'', annotation = None\<rparr>,
                        \<lparr>param_name = ''acc'', annotation = None\<rparr>]] []
   = Inr (Some \<lparr>ut_workunit = PyFunction ''w'' [\<lparr>param_name = ''i'', annotation = None\<rparr>,
                                   \<lparr>param_name = ''j'', annotation = None\<rparr>,
                                   \<lparr>param_name = ''acc'', annotation = None\<rparr>],
                inferred_types = [(''i'', ''int''), (''j'', ''int''), (''acc'', ''Acc:float'')],
                is_arg = {''i'', ''j'', ''acc''}\<rparr>)
   \<and> wf_signature [\<lparr>param_name = ''i'', annotation = None\<rparr>,
                    \<lparr>param_name = ''j'', annotation = None\<rparr>,
                    \<lparr>param_name = ''acc'', annotation = None\<rparr>]
   \<and> map_of [(''i'', ''int''), (''j'', ''int''), (''acc'', ''Acc:float'')] ''acc'' = Some ''Acc:float''
   \<and> ''acc'' \<in> {''i'', ''j'', ''acc''}"
proof -
  let ?ps = "[\<lparr>param_name = ''i'', annotation = None\<rparr>,
              \<lparr>param_name = ''j'', annotation = None\<rparr>,
              \<lparr>param_name = ''acc'', annotation = None\<rparr>]"
  let ?h = "\<lparr>name = None, policy = PyMDRangePolicy [0, 0], workunit = PyFunction ''w'' ?ps,
            view = None, initial_value = PyInt 0\<rparr>"
  let ?u = "\<lparr>ut_workunit = PyFunction ''w'' ?ps,
            inferred_types = [(''i'', ''int''), (''j'', ''int''), (''acc'', ''Acc:float'')],
            is_arg = {''i'', ''j'', ''acc''}\<rparr>"
  have run: "get_annotations ''parallel_reduce'' ?h [PyMDRangePolicy [0, 0], PyFunction ''w'' ?ps] []
               = Inr (Some ?u)"
    by code_simp
  have wu: "workunit ?h = PyFunction ''w'' ?ps" by simp
  have wf: "wf_signature ?ps" by (simp add: wf_signature_def)
  have pp: "policy_params ''parallel_reduce'' (policy ?h) - 1 = 2"
    by (simp add: policy_params_def)
  have acc: "annotation (?ps ! (policy_params ''parallel_reduce'' (policy ?h) - 1)) = None"
    unfolding pp by simp
  from accumulator_gets_Acc_float [OF run wu wf acc]
  have "map_of (inferred_types ?u) (param_name (?ps ! 2)) = Some ''Acc:float''
      \<and> param_name (?ps ! 2) \<in> is_arg ?u"
    unfolding pp by blast
  then have "map_of [(''i'', ''int''), (''j'', ''int''), (''acc'', ''Acc:float'')] ''acc'' = Some ''Acc:float''
      \<and> ''acc'' \<in> {''i'', ''j'', ''acc''}" by simp
  with run wf show ?thesis by blast
qed


text \<open>
  The claim as first stated, for every \<open>parallel_reduce\<close> dispatch, does not hold: the
  assignment sits under the test \<open>param.annotation is inspect._empty\<close>, so an accumulator
  with an explicit annotation is left alone.  Here the accumulator \<open>acc\<close> is at index 1
  and the result has no entry for it.
\<close>

theorem accumulator_annotated_counterexample:
  "get_annotations ''parallel_reduce''
     \<lparr>name = Some ''sum'', policy = PyRangePolicy (ExecutionSpace ''OpenMP'') (PyInt 0) (PyInt 8),
      workunit = PyFunction ''w'' [\<lparr>param_name = ''i'', annotation = None\<rparr>,
                                   \<lparr>param_name = ''acc'', annotation = Some ''pk.Acc[pk.double]''\<rparr>],
      view = None, initial_value = PyInt 0\<rparr>
     [PyStr ''sum'', PyInt 8,
      PyFunction ''w'' [\<lparr>param_name = ''i'', annotation = None\<rparr>,
                        \<lparr>param_name = ''acc'', annotation = Some ''pk.Acc[pk.double]''\<rparr>]] []
   = Inr (Some \<lparr>ut_workunit = PyFunction ''w'' [\<lparr>param_name = ''i'', annotation = None\<rparr>,
                                   \<lparr>param_name = ''acc'', annotation = Some ''pk.Acc[pk.double]''\<rparr>],
                inferred_types = [(''i'', ''int'')], is_arg = {''i''}\<rparr>)
   \<and> policy_params ''parallel_reduce'' (PyRangePolicy (ExecutionSpace ''OpenMP'') (PyInt 0) (PyInt 8)) - 1 = 1
   \<and> map_of [(''i'', ''int'')] ''acc'' \<noteq> Some ''Acc:float''
   \<and> ''acc'' \<notin> {''i''}"
proof (intro conjI)
  show "get_annotations ''parallel_reduce''
     \<lparr>name = Some ''sum'', policy = PyRangePolicy (ExecutionSpace ''OpenMP'') (PyInt 0) (PyInt 8),
      workunit = PyFunction ''w'' [\<lparr>param_name = ''i'', annotation = None\<rparr>,
                                   \<lparr>param_name = ''acc'', annotation = Some ''pk.Acc[pk.double]''\<rparr>],
      view = None, initial_value = PyInt 0\<rparr>
     [PyStr ''sum'', PyInt 8,
      PyFunction ''w'' [\<lparr>param_name = ''i'', annotation = None\<rparr>,
                        \<lparr>param_name = ''acc'', annotation = Some ''pk.Acc[pk.double]''\<rparr>]] []
   = Inr (Some \<lparr>ut_workunit = PyFunction ''w'' [\<lparr>param_name = ''i'', annotation = None\<rparr>,
                                   \<lparr>param_name = ''acc'', annotation = Some ''pk.Acc[pk.double]''\<rparr>],
                inferred_types = [(''i'', ''int'')], is_arg = {''i''}\<rparr>)"
    by code_simp
  show "policy_params ''parallel_reduce'' (PyRangePolicy (ExecutionSpace ''OpenMP'') (PyInt 0) (PyInt 8)) - 1 = 1"
    by (simp add: policy_params_def)
  show "map_of [(''i'', ''int'')] ''acc'' \<noteq> Some ''Acc:float''" by simp
  show "''acc'' \<notin> {''i''}" by simp
qed

text \<open>
  Claim C6, as amended.  On a normal return, every parameter past the policy slots that
  has no explicit annotation gets the descriptor of the raw value at position
  \<open>value_idx + (i - policy_params)\<close> of the argument list, a position that exists, and is
  listed in \<open>is_arg\<close>.  The argument list is the raw one followed by the keyword values
  that name a parameter past the policy slots, in parameter order.  The descriptor of an
  instance of \<open>View\<close> is \<open>View\<close>, the decimal length of its shape, \<open>D:\<close> and the name of
  its dtype (\<open>View2D:float64\<close> for a two-dimensional view of \<open>float64\<close>).  The descriptor
  of any other value is the name of its class: \<open>int\<close>, \<open>float\<close>, \<open>bool\<close>, \<open>str\<close> and so
  on, and also for an instance of \<open>ViewType\<close> that is not a \<open>View\<close>.
\<close>

theorem trailing_parameter_descriptor:
  assumes res: "get_annotations pt h args kw = Inr r"
    and wu: "workunit h = PyFunction f ps" and wf: "wf_signature ps"
    and i: "policy_params pt (policy h) \<le> i" "i < length ps" "annotation (ps ! i) = None"
  shows "(\<exists>u. r = Some u
        \<and> nat (value_idx h) + (i - policy_params pt (policy h))
            < length (queue_kwargs ps (policy_params pt (policy h)) args kw)
        \<and> map_of (inferred_types u) (param_name (ps ! i)) =
            Some (param_type (queue_kwargs ps (policy_params pt (policy h)) args kw
                                ! (nat (value_idx h) + (i - policy_params pt (policy h)))))
        \<and> param_name (ps ! i) \<in> is_arg u)
      \<and> queue_kwargs ps (policy_params pt (policy h)) args kw
          = args @ map (\<lambda>p. the (map_of kw (param_name p)))
                       (filter (\<lambda>p. param_name p \<in> fst ` set kw)
                               (drop (policy_params pt (policy h)) ps))
      \<and> (\<forall>sh dt. param_type (PyView sh dt) = ''View'' @ str_nat (length sh) @ ''D:'' @ dt)
      \<and> (\<forall>n. str_nat n \<noteq> [] \<and> set (str_nat n) \<subseteq> set ''0123456789''
             \<and> decimal_value (str_nat n) = n \<and> (hd (str_nat n) = CHR ''0'' \<longrightarrow> n = 0))
      \<and> (\<forall>m n. param_type (PyView [m, n] ''float64'') = ''View2D:float64'')
      \<and> (\<forall>l m n. param_type (PyView [l, m, n] ''double'') = ''View3D:double'')
      \<and> (\<forall>v. \<not> isinstance_View v \<longrightarrow> param_type v = type_name v)
      \<and> param_type PyNone = ''NoneType''
      \<and> (\<forall>s. param_type (PyStr s) = ''str'')
      \<and> (\<forall>b. param_type (PyBool b) = ''bool'')
      \<and> (\<forall>n. param_type (PyInt n) = ''int'')
      \<and> (\<forall>x. param_type (PyFloat x) = ''float'')
      \<and> (\<forall>g qs. param_type (PyFunction g qs) = ''function'')
      \<and> (\<forall>c. param_type (PyViewType c) = c)
      \<and> (\<forall>sp lo hi. param_type (PyRangePolicy sp lo hi) = ''RangePolicy'')
      \<and> param_type PyTeamThreadRange = ''TeamThreadRange''
      \<and> param_type PyTeamPolicy = ''TeamPolicy''
      \<and> (\<forall>b. param_type (PyMDRangePolicy b) = ''MDRangePolicy'')
      \<and> (\<forall>c. param_type (PyObject c) = c)"
proof (intro conjI allI)
  let ?pp = "policy_params pt (policy h)"
  let ?args = "queue_kwargs ps ?pp args kw"
  let ?k = "nat (value_idx h) + (i - ?pp)"
  from get_annotations_types [OF res wu wf] obtain ut where
    r: "r = (if inferred_types ut = [] then None else Some ut)"
    and k: "fst ` set (inferred_types ut) = is_arg ut"
    and t2: "\<And>i. ?pp \<le> i \<Longrightarrow> i < length ps \<Longrightarrow> annotation (ps ! i) = None \<Longrightarrow>
            \<exists>v. py_index ?args (value_idx h + int i - int ?pp) = Inr v
               \<and> map_of (inferred_types ut) (param_name (ps ! i)) = Some (param_type v)"
    by blast
  from t2 [OF i] obtain v where v: "py_index ?args (value_idx h + int i - int ?pp) = Inr v"
    and m: "map_of (inferred_types ut) (param_name (ps ! i)) = Some (param_type v)" by blast
  have nn: "0 \<le> value_idx h + int i - int ?pp" using i(1) by (simp add: value_idx_def)
  have "0 \<le> value_idx h" by (simp add: value_idx_def)
  with i(1) have idx: "nat (value_idx h + int i - int ?pp) = ?k" by linarith
  from py_index_nonneg [OF v nn] idx have lt: "?k < length ?args" and ve: "v = ?args ! ?k"
    by simp_all
  from typed_entry [OF r k m] m lt ve
  show "\<exists>u. r = Some u \<and> ?k < length ?args
        \<and> map_of (inferred_types u) (param_name (ps ! i)) = Some (param_type (?args ! ?k))
        \<and> param_name (ps ! i) \<in> is_arg u"
    by blast
  show "?args = args @ map (\<lambda>p. the (map_of kw (param_name p)))
                          (filter (\<lambda>p. param_name p \<in> fst ` set kw) (drop ?pp ps))"
    by (rule queue_kwargs_eq)
next
  fix sh dt show "param_type (PyView sh dt) = ''View'' @ str_nat (length sh) @ ''D:'' @ dt"
    by (simp add: param_type_def)
next
  fix n show "str_nat n \<noteq> []" "set (str_nat n) \<subseteq> set ''0123456789''"
    "decimal_value (str_nat n) = n" "hd (str_nat n) = CHR ''0'' \<longrightarrow> n = 0"
    using str_nat_decimal [of n] by blast+
next
  fix m n show "param_type (PyView [m, n] ''float64'') = ''View2D:float64''"
    by (simp add: param_type_def str_nat_Suc_Suc_0)
next
  fix l m n :: nat
  have "length [l, m, n] = 3" by simp
  then show "param_type (PyView [l, m, n] ''double'') = ''View3D:double''"
    unfolding param_type_def pyval.case by (simp only: str_nat_3) simp
next
  fix v show "\<not> isinstance_View v \<longrightarrow> param_type v = type_name v"
    using param_type_other by blast
qed (simp_all add: param_type_def)



theorem trailing_parameter_descriptor_witness:
  "get_annotations ''parallel_for''
     \<lparr>name = Some ''k'', policy = PyRangePolicy (ExecutionSpace ''OpenMP'') (PyInt 0) (PyInt 8),
      workunit = PyFunction ''w'' [\<lparr>param_name = ''i'', annotation = None\<rparr>,
                                   \<lparr>param_name = ''a'', annotation = None\<rparr>,
                                   \<lparr>param_name = ''s'', annotation = None\<rparr>,
                                   \<lparr>param_name = ''t'', annotation = None\<rparr>],
      view = None, initial_value = PyInt 0\<rparr>
     [PyStr ''k'', PyInt 8,
      PyFunction ''w'' [\<lparr>param_name = ''i'', annotation = None\<rparr>,
                        \<lparr>param_name = ''a'', annotation = None\<rparr>,
                        \<lparr>param_name = ''s'', annotation = None\<rparr>,
                        \<lparr>param_name = ''t'', annotation = None\<rparr>],
      PyView [2, 3, 4] ''double''] [(''t'', PyInt 5), (''s'', PyFloat 0)]
   = Inr (Some \<lparr>ut_workunit = PyFunction ''w'' [\<lparr>param_name = ''i'', annotation = None\<rparr>,
                                   \<lparr>param_name = ''a'', annotation = None\<rparr>,
                                   \<lparr>param_name = ''s'', annotation = None\<rparr>,
                                   \<lparr>param_name = ''t'', annotation = None\<rparr>],
                inferred_types = [(''i'', ''int''), (''a'', ''View3D:double''), (''s'', ''float''),
                                  (''t'', ''int'')],
                is_arg = {''i'', ''a'', ''s'', ''t''}\<rparr>)
   \<and> map_of [(''i'', ''int''), (''a'', ''View3D:double''), (''s'', ''float''), (''t'', ''int'')] ''a''
       = Some (param_type (PyView [2, 3, 4] ''double''))
   \<and> map_of [(''i'', ''int''), (''a'', ''View3D:double''), (''s'', ''float''), (''t'', ''int'')] ''s''
       = Some (param_type (PyFloat 0))
   \<and> map_of [(''i'', ''int''), (''a'', ''View3D:double''), (''s'', ''float''), (''t'', ''int'')] ''t''
       = Some (param_type (PyInt 5))"
proof -
  let ?ps = "[\<lparr>param_name = ''i'', annotation = None\<rparr>,
              \<lparr>param_name = ''a'', annotation = None\<rparr>,
              \<lparr>param_name = ''s'', annotation = None\<rparr>,
              \<lparr>param_name = ''t'', annotation = None\<rparr>]"
  let ?h = "\<lparr>name = Some ''k'', policy = PyRangePolicy (ExecutionSpace ''OpenMP'') (PyInt 0) (PyInt 8),
            workunit = PyFunction ''w'' ?ps, view = None, initial_value = PyInt 0\<rparr>"
  let ?args = "[PyStr ''k'', PyInt 8, PyFunction ''w'' ?ps, PyView [2, 3, 4] ''double'']"
  let ?kw = "[(''t'', PyInt 5), (''s'', PyFloat 0)]"
  let ?al = "[(''i'', ''int''), (''a'', ''View3D:double''), (''s'', ''float''), (''t'', ''int'')]"
  let ?u = "\<lparr>ut_workunit = PyFunction ''w'' ?ps, inferred_types = ?al,
            is_arg = {''i'', ''a'', ''s'', ''t''}\<rparr>"
  have run: "get_annotations ''parallel_for'' ?h ?args ?kw = Inr (Some ?u)"
    by code_simp
  have wu: "workunit ?h = PyFunction ''w'' ?ps" by simp
  have wf: "wf_signature ?ps" by (simp add: wf_signature_def)
  have pp: "policy_params ''parallel_for'' (policy ?h) = 1" by (simp add: policy_params_def)
  have q: "queue_kwargs ?ps 1 ?args ?kw = ?args @ [PyFloat 0, PyInt 5]"
    by (simp add: queue_kwargs_def)
  have vi: "nat (value_idx ?h) = 3" by (simp add: value_idx_def)
  have sel: "inferred_types ?u = ?al" by simp
  have ty: "map_of ?al (param_name (?ps ! i)) =
              Some (param_type ((?args @ [PyFloat 0, PyInt 5]) ! (3 + (i - 1))))"
    if "1 \<le> i" "i < 4" for i
  proof -
    from that have i: "policy_params ''parallel_for'' (policy ?h) \<le> i" "i < length ?ps"
      "annotation (?ps ! i) = None"
      unfolding pp by (simp_all add: nth_Cons')
    from trailing_parameter_descriptor [OF run wu wf i, THEN conjunct1]
    obtain u where e: "Some ?u = Some u"
      and m: "map_of (inferred_types u) (param_name (?ps ! i)) =
          Some (param_type ((?args @ [PyFloat 0, PyInt 5]) ! (3 + (i - 1))))"
      unfolding pp q vi by blast
    from e have u: "u = ?u" by simp
    from m show ?thesis unfolding u sel .
  qed
  from ty [of 1] ty [of 2] ty [of 3]
  have "map_of ?al ''a'' = Some (param_type (PyView [2, 3, 4] ''double''))"
    "map_of ?al ''s'' = Some (param_type (PyFloat 0))"
    "map_of ?al ''t'' = Some (param_type (PyInt 5))"
    by simp_all
  with run show ?thesis by blast
qed


text \<open>
  The claim as first stated, with the view descriptor for every value that is a view, does
  not hold: the test of line 184 is \<open>isinstance(value, View)\<close>, while the unpacker accepts
  any \<open>ViewType\<close> as the view of the call.  Here the third argument is a \<open>ViewType\<close> that
  is not a \<open>View\<close>; the unpacker takes it as the view, and the inferencer gives the
  parameter \<open>a\<close> the class name of the value, which does not start with \<open>View\<close>.
\<close>

theorem subview_descriptor_counterexample:
  "get_annotations ''parallel_for''
     \<lparr>name = None, policy = PyRangePolicy (ExecutionSpace ''OpenMP'') (PyInt 0) (PyInt 8),
      workunit = PyFunction ''w'' [\<lparr>param_name = ''i'', annotation = None\<rparr>,
                                   \<lparr>param_name = ''a'', annotation = None\<rparr>],
      view = Some (PyViewType ''Subview''), initial_value = PyInt 0\<rparr>
     [PyInt 8,
      PyFunction ''w'' [\<lparr>param_name = ''i'', annotation = None\<rparr>,
                        \<lparr>param_name = ''a'', annotation = None\<rparr>],
      PyViewType ''Subview''] []
   = Inr (Some \<lparr>ut_workunit = PyFunction ''w'' [\<lparr>param_name = ''i'', annotation = None\<rparr>,
                                   \<lparr>param_name = ''a'', annotation = None\<rparr>],
                inferred_types = [(''i'', ''int''), (''a'', ''Subview'')],
                is_arg = {''i'', ''a''}\<rparr>)
   \<and> handle_args (ExecutionSpace ''OpenMP'') True
       [PyInt 8,
        PyFunction ''w'' [\<lparr>param_name = ''i'', annotation = None\<rparr>,
                          \<lparr>param_name = ''a'', annotation = None\<rparr>],
        PyViewType ''Subview'']
     = Inr \<lparr>name = None, policy = PyRangePolicy (ExecutionSpace ''OpenMP'') (PyInt 0) (PyInt 8),
      workunit = PyFunction ''w'' [\<lparr>param_name = ''i'', annotation = None\<rparr>,
                                   \<lparr>param_name = ''a'', annotation = None\<rparr>],
      view = Some (PyViewType ''Subview''), initial_value = PyInt 0\<rparr>
   \<and> isinstance_ViewType (PyViewType ''Subview'')
   \<and> take 4 ''Subview'' \<noteq> ''View''"
proof (intro conjI)
  show "get_annotations ''parallel_for''
     \<lparr>name = None, policy = PyRangePolicy (ExecutionSpace ''OpenMP'') (PyInt 0) (PyInt 8),
      workunit = PyFunction ''w'' [\<lparr>param_name = ''i'', annotation = None\<rparr>,
                                   \<lparr>param_name = ''a'', annotation = None\<rparr>],
      view = Some (PyViewType ''Subview''), initial_value = PyInt 0\<rparr>
     [PyInt 8,
      PyFunction ''w'' [\<lparr>param_name = ''i'', annotation = None\<rparr>,
                        \<lparr>param_name = ''a'', annotation = None\<rparr>],
      PyViewType ''Subview''] []
   = Inr (Some \<lparr>ut_workunit = PyFunction ''w'' [\<lparr>param_name = ''i'', annotation = None\<rparr>,
                                   \<lparr>param_name = ''a'', annotation = None\<rparr>],
                inferred_types = [(''i'', ''int''), (''a'', ''Subview'')],
                is_arg = {''i'', ''a''}\<rparr>)"
    by code_simp
  show "handle_args (ExecutionSpace ''OpenMP'') True
       [PyInt 8,
        PyFunction ''w'' [\<lparr>param_name = ''i'', annotation = None\<rparr>,
                          \<lparr>param_name = ''a'', annotation = None\<rparr>],
        PyViewType ''Subview'']
     = Inr \<lparr>name = None, policy = PyRangePolicy (ExecutionSpace ''OpenMP'') (PyInt 0) (PyInt 8),
      workunit = PyFunction ''w'' [\<lparr>param_name = ''i'', annotation = None\<rparr>,
                                   \<lparr>param_name = ''a'', annotation = None\<rparr>],
      view = Some (PyViewType ''Subview''), initial_value = PyInt 0\<rparr>"
    by (simp add: handle_args_def resolve_policy_def)
  show "isinstance_ViewType (PyViewType ''Subview'')" by simp
  show "take 4 ''Subview'' \<noteq> ''View''" by simp
qed




text \<open>
  Claim C7.  If the policy is none of \<open>RangePolicy\<close>, \<open>TeamThreadRange\<close>, \<open>TeamPolicy\<close>
  and \<open>MDRangePolicy\<close> and some policy-slot parameter of the workunit has no explicit
  annotation, the inferencer raises \<open>ValueError\<close>.
\<close>

theorem unsupported_policy_raises:
  assumes wu: "workunit h = PyFunction f ps"
    and pol: "\<not> supported_policy (policy h)"
    and i: "i < policy_params pt (policy h)" "i < length ps" "annotation (ps ! i) = None"
  shows "get_annotations pt h args kw = Inl ValueError"
proof -
  let ?pp = "policy_params pt (policy h)"
  have "\<forall>j\<in>set [0..<i]. j < length ps" using i(2) by simp
  from policy_loop_unsupported [OF pol this i(2,3), of pt ?pp "[Suc i..<?pp]"]
  have "for_range (policy_step pt (policy h) ps ?pp) [0..<?pp]
          \<lparr>ut_workunit = workunit h, inferred_types = [], is_arg = {}\<rparr> = Inl ValueError"
    unfolding upt_split [OF i(1), symmetric] .
  then show ?thesis unfolding get_annotations_unfold [OF wu] by simp
qed

theorem unsupported_policy_raises_witness:
  "\<not> supported_policy (PyObject ''TeamVectorRange'')
   \<and> get_annotations ''parallel_for''
     \<lparr>name = None, policy = PyObject ''TeamVectorRange'',
      workunit = PyFunction ''w'' [\<lparr>param_name = ''i'', annotation = None\<rparr>],
      view = None, initial_value = PyInt 0\<rparr>
     [PyObject ''TeamVectorRange'', PyFunction ''w'' [\<lparr>param_name = ''i'', annotation = None\<rparr>]] []
   = Inl ValueError"
proof -
  let ?ps = "[\<lparr>param_name = ''i'', annotation = None\<rparr>]"
  let ?h = "\<lparr>name = None, policy = PyObject ''TeamVectorRange'', workunit = PyFunction ''w'' ?ps,
            view = None, initial_value = PyInt 0\<rparr>"
  have wu: "workunit ?h = PyFunction ''w'' ?ps" by simp
  have pol: "\<not> supported_policy (policy ?h)" by simp
  have i: "0 < policy_params ''parallel_for'' (policy ?h)" "0 < length ?ps" "annotation (?ps ! 0) = None"
    by (simp_all add: policy_params_def)
  from unsupported_policy_raises [OF wu pol i] pol show ?thesis by simp
qed

text \<open>
  Claim C5.  Take a dispatch whose workunit has parameters beyond the policy slots and on
  which the first loop completes (the policy is supported, or every policy-slot parameter
  is annotated).  The offset \<open>value_idx\<close> is 3 when a name was given and 2 otherwise; the
  argument list is the raw one followed by the keyword values that name a parameter past
  the policy slots.  If the number of parameters past the policy slots differs from the
  number of arguments past \<open>value_idx\<close>, the call fails with \<open>AssertionError\<close>; if the two
  agree, the call returns normally.
\<close>

theorem count_mismatch_assertion:
  assumes wu: "workunit h = PyFunction f ps"
    and more: "policy_params pt (policy h) < length ps"
    and ok: "supported_policy (policy h) \<or> (\<forall>i<policy_params pt (policy h). annotation (ps ! i) \<noteq> None)"
  shows "value_idx h = (if name h \<noteq> None then 3 else 2)
     \<and> length (queue_kwargs ps (policy_params pt (policy h)) args kw)
          = length args + length (filter (\<lambda>p. param_name p \<in> fst ` set kw)
                                         (drop (policy_params pt (policy h)) ps))
     \<and> (int (length ps) - int (policy_params pt (policy h))
          \<noteq> int (length (queue_kwargs ps (policy_params pt (policy h)) args kw)) - value_idx h
        \<longrightarrow> get_annotations pt h args kw = Inl AssertionError)
     \<and> (int (length ps) - int (policy_params pt (policy h))
          = int (length (queue_kwargs ps (policy_params pt (policy h)) args kw)) - value_idx h
        \<longrightarrow> (\<exists>r. get_annotations pt h args kw = Inr r))"
proof (intro conjI impI)
  let ?pp = "policy_params pt (policy h)"
  let ?args = "queue_kwargs ps ?pp args kw"
  let ?init = "\<lparr>ut_workunit = workunit h, inferred_types = [], is_arg = {}\<rparr>"
  show "value_idx h = (if name h \<noteq> None then 3 else 2)" by (simp add: value_idx_def)
  show "length ?args = length args + length (filter (\<lambda>p. param_name p \<in> fst ` set kw) (drop ?pp ps))"
    by (rule length_queue_kwargs)
  have "\<exists>b. policy_step pt (policy h) ps ?pp i a = Inr b" if "i \<in> set [0..<?pp]" for i a
  proof (rule policy_step_total)
    from that more show "i < length ps" by simp
    from that ok show "supported_policy (policy h) \<or> annotation (ps ! i) \<noteq> None" by auto
  qed
  from for_range_total [of "[0..<?pp]" "policy_step pt (policy h) ps ?pp" ?init, OF this]
  obtain ut1 where l1: "for_range (policy_step pt (policy h) ps ?pp) [0..<?pp] ?init = Inr ut1"
    by blast
  from more have ne: "length ps \<noteq> ?pp" by simp
  {
    assume "int (length ps) - int ?pp \<noteq> int (length ?args) - value_idx h"
    with l1 ne show "get_annotations pt h args kw = Inl AssertionError"
      unfolding get_annotations_unfold [OF wu] by simp
  }
  {
    assume eq: "int (length ps) - int ?pp = int (length ?args) - value_idx h"
    have v0: "0 \<le> value_idx h" by (simp add: value_idx_def)
    have "\<exists>b. value_step ps ?args (value_idx h) ?pp i a = Inr b" if "i \<in> set [?pp..<length ps]" for i a
    proof (rule value_step_total)
      from that show "i < length ps" by simp
      from that v0 show "0 \<le> value_idx h + int i - int ?pp" by simp
      from that eq show "value_idx h + int i - int ?pp < int (length ?args)" by simp
    qed
    from for_range_total [of "[?pp..<length ps]" "value_step ps ?args (value_idx h) ?pp" ut1, OF this]
    obtain ut2 where l2: "for_range (value_step ps ?args (value_idx h) ?pp) [?pp..<length ps] ut1 = Inr ut2"
      by blast
    from l1 ne eq l2 show "\<exists>r. get_annotations pt h args kw = Inr r"
      unfolding get_annotations_unfold [OF wu] by (simp add: finish_def)
  }
qed


theorem count_mismatch_assertion_witness:
  "get_annotations ''parallel_for''
     \<lparr>name = None, policy = PyRangePolicy (ExecutionSpace ''OpenMP'') (PyInt 0) (PyInt 8),
      workunit = PyFunction ''w'' [\<lparr>param_name = ''i'', annotation = None\<rparr>,
                                   \<lparr>param_name = ''a'', annotation = None\<rparr>],
      view = None, initial_value = PyInt 0\<rparr>
     [PyInt 8, PyFunction ''w'' [\<lparr>param_name = ''i'', annotation = None\<rparr>,
                                 \<lparr>param_name = ''a'', annotation = None\<rparr>]] []
   = Inl AssertionError
   \<and> value_idx \<lparr>name = Some ''k'', policy = PyRangePolicy (ExecutionSpace ''OpenMP'') (PyInt 0) (PyInt 8),
      workunit = PyFunction ''w'' [\<lparr>param_name = ''i'', annotation = None\<rparr>,
                                   \<lparr>param_name = ''a'', annotation = None\<rparr>],
      view = None, initial_value = PyInt 0\<rparr> = 3
   \<and> (\<exists>r. get_annotations ''parallel_for''
     \<lparr>name = Some ''k'', policy = PyRangePolicy (ExecutionSpace ''OpenMP'') (PyInt 0) (PyInt 8),
      workunit = PyFunction ''w'' [\<lparr>param_name = ''i'', annotation = None\<rparr>,
                                   \<lparr>param_name = ''a'', annotation = None\<rparr>],
      view = None, initial_value = PyInt 0\<rparr>
     [PyStr ''k'', PyInt 8, PyFunction ''w'' [\<lparr>param_name = ''i'', annotation = None\<rparr>,
                                 \<lparr>param_name = ''a'', annotation = None\<rparr>]]
     [(''a'', PyView [4] ''int32'')] = Inr r)"
proof -
  let ?ps = "[\<lparr>param_name = ''i'', annotation = None\<rparr>, \<lparr>param_name = ''a'', annotation = None\<rparr>]"
  let ?pol = "PyRangePolicy (ExecutionSpace ''OpenMP'') (PyInt 0) (PyInt 8)"
  let ?ha = "\<lparr>name = None, policy = ?pol, workunit = PyFunction ''w'' ?ps, view = None,
             initial_value = PyInt 0\<rparr>"
  let ?hb = "\<lparr>name = Some ''k'', policy = ?pol, workunit = PyFunction ''w'' ?ps, view = None,
             initial_value = PyInt 0\<rparr>"
  let ?argsa = "[PyInt 8, PyFunction ''w'' ?ps]"
  let ?argsb = "[PyStr ''k'', PyInt 8, PyFunction ''w'' ?ps]"
  let ?kw = "[(''a'', PyView [4] ''int32'')]"
  have pp: "policy_params ''parallel_for'' ?pol = 1" by (simp add: policy_params_def)
  have wua: "workunit ?ha = PyFunction ''w'' ?ps" and wub: "workunit ?hb = PyFunction ''w'' ?ps"
    by simp_all
  have morea: "policy_params ''parallel_for'' (policy ?ha) < length ?ps"
    and moreb: "policy_params ''parallel_for'' (policy ?hb) < length ?ps"
    using pp by simp_all
  have oka: "supported_policy (policy ?ha)
             \<or> (\<forall>i<policy_params ''parallel_for'' (policy ?ha). annotation (?ps ! i) \<noteq> None)"
    and okb: "supported_policy (policy ?hb)
             \<or> (\<forall>i<policy_params ''parallel_for'' (policy ?hb). annotation (?ps ! i) \<noteq> None)"
    by simp_all
  have qa: "queue_kwargs ?ps 1 ?argsa [] = ?argsa" by (simp add: queue_kwargs_def)
  have qb: "queue_kwargs ?ps 1 ?argsb ?kw = ?argsb @ [PyView [4] ''int32'']"
    by (simp add: queue_kwargs_def)
  have sa: "policy ?ha = ?pol" and sb: "policy ?hb = ?pol" by simp_all
  have va: "value_idx ?ha = 2" and vb: "value_idx ?hb = 3" by (simp_all add: value_idx_def)
  note a = count_mismatch_assertion [OF wua morea oka, of ?argsa "[]"]
  note b = count_mismatch_assertion [OF wub moreb okb, of ?argsb ?kw]
  have ma: "int (length ?ps) - int (policy_params ''parallel_for'' (policy ?ha))
          \<noteq> int (length (queue_kwargs ?ps (policy_params ''parallel_for'' (policy ?ha)) ?argsa [])) - value_idx ?ha"
    unfolding sa pp qa va by simp
  have mb: "int (length ?ps) - int (policy_params ''parallel_for'' (policy ?hb))
          = int (length (queue_kwargs ?ps (policy_params ''parallel_for'' (policy ?hb)) ?argsb ?kw)) - value_idx ?hb"
    unfolding sb pp qb vb by simp
  from a [THEN conjunct2, THEN conjunct2, THEN conjunct1, THEN mp, OF ma]
  have ra: "get_annotations ''parallel_for'' ?ha ?argsa [] = Inl AssertionError" .
  from b [THEN conjunct2, THEN conjunct2, THEN conjunct2, THEN mp, OF mb]
  have rb: "\<exists>r. get_annotations ''parallel_for'' ?hb ?argsb ?kw = Inr r" .
  from ra vb rb show ?thesis by (intro conjI)
qed

end
